(* ===== verification/Prelude.thy ===== *)
theory Prelude
  imports Main
begin

text \<open>
  Shared vocabulary of the development: the type of JavaScript strings, the
  truthiness of an optional string and the \<open>||\<close> default, the sequencing of a list
  of fallible results (a React render that throws stops at the first throwing row),
  the rule collection \<open>table_simps\<close> that the component theories fill, and the
  generic lemmas on lists and sums that they use through \<open>simp add:\<close>. JavaScript
  strings are modelled as \<^typ>\<open>string\<close>, read as the UTF-8 bytes of the text (theory
  \<open>Utf8\<close>); the string methods the code calls are in \<open>Js_String\<close>.
\<close>

named_theorems table_simps "rules that evaluate a table step on a concrete state"

type_synonym js_string = string

section \<open>Truthiness and the \<open>||\<close> default\<close>

text \<open>An optional string prop (\<open>s?: string\<close>) is truthy when present and non-empty.\<close>

definition js_truthy :: "js_string option \<Rightarrow> bool" where
  "js_truthy s = (case s of None \<Rightarrow> False | Some v \<Rightarrow> v \<noteq> [])"

text \<open>\<open>a || b\<close> for an optional string \<open>a\<close> and a string \<open>b\<close>.\<close>

definition js_or :: "js_string option \<Rightarrow> js_string \<Rightarrow> js_string" where
  "js_or a b = (case a of Some v \<Rightarrow> if v \<noteq> [] then v else b | None \<Rightarrow> b)"

section \<open>Sequencing fallible results\<close>

text \<open>The first error of a list of results, or the list of all values.\<close>

fun sequence_sum :: "('e + 'a) list \<Rightarrow> 'e + 'a list" where
  "sequence_sum [] = Inr []"
| "sequence_sum (Inl e # _) = Inl e"
| "sequence_sum (Inr x # rs) = map_sum id (Cons x) (sequence_sum rs)"

section \<open>Lemmas\<close>

lemma js_or_Some [simp]: "v \<noteq> [] \<Longrightarrow> js_or (Some v) b = v"
  by (simp add: js_or_def)

lemma js_or_None [simp]: "js_or None b = b"
  by (simp add: js_or_def)

lemma js_or_empty [simp]: "js_or (Some []) b = b"
  by (simp add: js_or_def)

lemma js_truthy_simps [simp]:
  "\<not> js_truthy None" "js_truthy (Some v) \<longleftrightarrow> v \<noteq> []"
  by (simp_all add: js_truthy_def)

lemma map_sum_id_Inr [simp]: "map_sum id f r = Inr y \<longleftrightarrow> (\<exists>z. r = Inr z \<and> y = f z)"
  by (cases r) auto

lemma map_sum_id_Inl [simp]: "map_sum id f r = Inl e \<longleftrightarrow> r = Inl e"
  by (cases r) auto

lemma sequence_sum_Inr_length:
  "sequence_sum rs = Inr ys \<Longrightarrow> length ys = length rs"
  by (induction rs arbitrary: ys rule: sequence_sum.induct) auto

lemma sequence_sum_isl_iff: "isl (sequence_sum rs) \<longleftrightarrow> (\<exists>r \<in> set rs. isl r)"
  by (induction rs rule: sequence_sum.induct) (auto simp: map_sum_sel isl_map_sum)

lemma sequence_sum_map_Inr:
  "sequence_sum (map f xs) = Inr ys \<Longrightarrow> ys = map (projr \<circ> f) xs \<and> (\<forall>x \<in> set xs. \<not> isl (f x))"
proof (induction xs arbitrary: ys)
  case Nil
  then show ?case by simp
next
  case (Cons x xs)
  then show ?case by (cases "f x") auto
qed

lemma sequence_sum_all_Inr:
  "sequence_sum (map (Inr \<circ> g) xs) = Inr (map g xs)"
  by (induction xs) auto

lemma length_le_Suc0_cases: "length xs \<le> 1 \<Longrightarrow> xs = [] \<or> (\<exists>x. xs = [x])"
  by (cases xs) auto


lemma find_distinct:
  "distinct (map f xs) \<Longrightarrow> x \<in> set xs \<Longrightarrow> List.find (\<lambda>y. f y = f x) xs = Some x"
  by (induction xs) (auto simp: image_iff)

end
