(* ===== verification/Utf8.thy ===== *)
theory Utf8
  imports Prelude "HOL-Library.Sublist"
begin

text \<open>
  UTF-8, the byte view of the JavaScript strings of the model. A string of the
  program is a sequence of Unicode code points; the model reads it as the bytes of its
  UTF-8 encoding (RFC 3629): \<open>utf8_encode\<close> writes one code point as one to four
  octets, and a Unicode scalar value is a code point below U+110000 that is not a
  surrogate. \<open>utf8_code_point\<close> and \<open>utf8_lead_ones\<close> are the two reading steps of
  ECMA-262's Decode (the value of a multi-octet sequence and the sequence length a
  lead octet announces). The lemmas show that an encoding is self-synchronising: a
  lead octet is never a continuation octet, the lead fixes the length, and the
  encoding is injective, so an encoded code point is a prefix (or suffix) of an
  encoded text exactly when it is its first (or last) code point.
\<close>

definition utf8_encode :: "nat \<Rightarrow> nat list" where
  "utf8_encode cp =
     (if cp < 128 then [cp]
      else if cp < 2048 then [192 + cp div 64, 128 + cp mod 64]
      else if cp < 65536 then [224 + cp div 4096, 128 + cp div 64 mod 64, 128 + cp mod 64]
      else [240 + cp div 262144, 128 + cp div 4096 mod 64, 128 + cp div 64 mod 64, 128 + cp mod 64])"

definition scalar_value :: "nat \<Rightarrow> bool" where
  "scalar_value cp = (cp < 1114112 \<and> \<not> (55296 \<le> cp \<and> cp \<le> 57343))"

definition utf8_code_point :: "nat list \<Rightarrow> nat" where
  "utf8_code_point bs =
     (case bs of
        [b0, b1] \<Rightarrow> (b0 mod 32) * 64 + b1 mod 64
      | [b0, b1, b2] \<Rightarrow> (b0 mod 16) * 4096 + (b1 mod 64) * 64 + b2 mod 64
      | [b0, b1, b2, b3] \<Rightarrow>
          (b0 mod 8) * 262144 + (b1 mod 64) * 4096 + (b2 mod 64) * 64 + b3 mod 64
      | _ \<Rightarrow> 0)"

text \<open>The number of leading 1 bits of an octet (5 stands for "more than 4").\<close>

definition utf8_lead_ones :: "nat \<Rightarrow> nat" where
  "utf8_lead_ones b =
     (if b < 128 then 0 else if b < 192 then 1 else if b < 224 then 2
      else if b < 240 then 3 else if b < 248 then 4 else 5)"

text \<open>The octets of a sequence of code points.\<close>

definition utf8_bytes :: "nat list \<Rightarrow> nat list" where
  "utf8_bytes cps = concat (map utf8_encode cps)"

text \<open>The text, as a JavaScript string of bytes, of a sequence of code points.\<close>

definition utf8_string :: "nat list \<Rightarrow> js_string" where
  "utf8_string cps = map char_of (utf8_bytes cps)"

section \<open>Lemmas\<close>

lemma add_mult_mod: "a = k * m \<Longrightarrow> (a + x) mod m = x mod (m::nat)"
  by (simp add: add.commute)

lemma lead_mods:
  "(192 + x) mod 32 = x mod (32::nat)" "(128 + x) mod 64 = x mod (64::nat)"
  "(224 + x) mod 16 = x mod (16::nat)" "(240 + x) mod 8 = x mod (8::nat)"
  by (rule add_mult_mod, simp)+

lemma div64_parts:
  "(n::nat) div 4096 * 64 + n div 64 mod 64 = n div 64"
  "(n::nat) div 262144 * 64 + n div 4096 mod 64 = n div 4096"
proof -
  have "n div 4096 = n div 64 div 64" by (simp add: div_mult2_eq [symmetric])
  then show "n div 4096 * 64 + n div 64 mod 64 = n div 64" by simp
  have "n div 262144 = n div 4096 div 64" by (simp add: div_mult2_eq [symmetric])
  then show "n div 262144 * 64 + n div 4096 mod 64 = n div 4096" by simp
qed

lemma utf8_code_point_encode:
  assumes "128 \<le> cp" "cp < 1114112"
  shows "utf8_code_point (utf8_encode cp) = cp"
proof -
  consider "cp < 2048" | "2048 \<le> cp" "cp < 65536" | "65536 \<le> cp" by linarith
  then show ?thesis
  proof cases
    case 1
    then have "cp div 64 < 32" by simp
    with 1 assms show ?thesis by (simp add: utf8_encode_def utf8_code_point_def lead_mods)
  next
    case 2
    then have "cp div 4096 < 16" by simp
    have "(cp div 4096) * 4096 + (cp div 64 mod 64) * 64 + cp mod 64
        = (cp div 4096 * 64 + cp div 64 mod 64) * 64 + cp mod 64" by simp
    also have "\<dots> = cp" by (simp add: div64_parts)
    finally have e: "(cp div 4096) * 4096 + (cp div 64 mod 64) * 64 + cp mod 64 = cp" .
    from 2 \<open>cp div 4096 < 16\<close> e show ?thesis
      by (simp add: utf8_encode_def utf8_code_point_def lead_mods)
  next
    case 3
    then have "cp div 262144 < 8" using assms by simp
    have "(cp div 262144) * 262144 + (cp div 4096 mod 64) * 4096 + (cp div 64 mod 64) * 64 + cp mod 64
        = ((cp div 262144 * 64 + cp div 4096 mod 64) * 64 + cp div 64 mod 64) * 64 + cp mod 64"
      by simp
    also have "\<dots> = cp" by (simp add: div64_parts)
    finally have e: "(cp div 262144) * 262144 + (cp div 4096 mod 64) * 4096
        + (cp div 64 mod 64) * 64 + cp mod 64 = cp" .
    from 3 \<open>cp div 262144 < 8\<close> e show ?thesis
      by (simp add: utf8_encode_def utf8_code_point_def lead_mods)
  qed
qed

lemma utf8_encode_cont: "x \<in> set (tl (utf8_encode cp)) \<Longrightarrow> x div 64 = 2"
  by (auto simp: utf8_encode_def split: if_splits)

lemma utf8_encode_ne [simp]: "utf8_encode cp \<noteq> []"
  by (simp add: utf8_encode_def)

lemma utf8_encode_lead:
  "cp < 1114112 \<Longrightarrow> hd (utf8_encode cp) div 64 \<noteq> 2"
proof -
  assume "cp < 1114112"
  then have "cp div 262144 < 8" by simp
  then show ?thesis by (auto simp: utf8_encode_def)
qed

lemma utf8_encode_length:
  "cp < 1114112 \<Longrightarrow>
   length (utf8_encode cp) = (if hd (utf8_encode cp) < 128 then 1 else utf8_lead_ones (hd (utf8_encode cp)))"
proof -
  assume "cp < 1114112"
  then have "cp div 262144 < 8" by simp
  then show ?thesis by (auto simp: utf8_encode_def utf8_lead_ones_def)
qed

lemma utf8_encode_bound: "x \<in> set (utf8_encode cp) \<Longrightarrow> cp < 1114112 \<Longrightarrow> x < 256"
proof -
  assume "x \<in> set (utf8_encode cp)" "cp < 1114112"
  moreover from \<open>cp < 1114112\<close> have "cp div 262144 < 8" by simp
  ultimately show ?thesis by (auto simp: utf8_encode_def split: if_splits)
qed

lemma utf8_encode_inj:
  assumes "a < 1114112" "b < 1114112" "utf8_encode a = utf8_encode b"
  shows "a = b"
proof (cases "a < 128")
  case True
  with assms(3) show ?thesis by (simp add: utf8_encode_def split: if_splits)
next
  case False
  then have "length (utf8_encode a) \<noteq> 1" by (simp add: utf8_encode_def)
  with assms(3) have "length (utf8_encode b) \<noteq> 1" by simp
  then have "\<not> b < 128" by (auto simp: utf8_encode_def)
  with False assms show ?thesis by (metis utf8_code_point_encode not_less)
qed

text \<open>A code point's encoding is a prefix of an encoded text exactly when it is its first code point.\<close>

lemma utf8_prefix_iff:
  assumes "a < 1114112" "b < 1114112"
  shows "prefix (utf8_encode a) (utf8_encode b @ r) \<longleftrightarrow> a = b"
proof
  assume p: "prefix (utf8_encode a) (utf8_encode b @ r)"
  then have h: "hd (utf8_encode a) = hd (utf8_encode b)"
    by (cases "utf8_encode a"; cases "utf8_encode b") (auto simp: prefix_def)
  then have "length (utf8_encode a) = length (utf8_encode b)"
    using utf8_encode_length [OF assms(1)] utf8_encode_length [OF assms(2)] by simp
  with p have "utf8_encode a = utf8_encode b"
    by (auto simp: prefix_def)
  then show "a = b" using utf8_encode_inj assms by blast
qed simp

lemma suffix_cont:
  assumes "xs = zs @ ys" "zs \<noteq> []" "ys \<noteq> []"
  shows "hd ys \<in> set (tl xs)"
  using assms by (cases zs) auto

lemma utf8_suffix_last:
  assumes "a < 1114112" "b < 1114112"
  shows "suffix (utf8_encode a) (bs @ utf8_encode b) \<longleftrightarrow> a = b"
proof
  assume s: "suffix (utf8_encode a) (bs @ utf8_encode b)"
  have "utf8_encode a = utf8_encode b"
  proof (cases "suffix (utf8_encode a) (utf8_encode b)")
    case True
    then obtain zs where z: "utf8_encode b = zs @ utf8_encode a" by (auto simp: suffix_def)
    show ?thesis
    proof (cases "zs = []")
      case False
      with z have "hd (utf8_encode a) \<in> set (tl (utf8_encode b))" by (intro suffix_cont) auto
      then show ?thesis using utf8_encode_cont utf8_encode_lead [OF assms(1)] by blast
    qed (use z in simp)
  next
    case False
    with s obtain xs' where x: "utf8_encode a = xs' @ utf8_encode b"
      by (auto simp: suffix_append)
    show ?thesis
    proof (cases "xs' = []")
      case False
      with x have "hd (utf8_encode b) \<in> set (tl (utf8_encode a))" by (intro suffix_cont) auto
      then show ?thesis using utf8_encode_cont utf8_encode_lead [OF assms(2)] by blast
    qed (use x in simp)
  qed
  then show "a = b" using utf8_encode_inj assms by blast
qed (auto simp: suffix_def)

lemma utf8_string_simps [simp]:
  "utf8_string [] = []"
  "utf8_string (c # cs) = map char_of (utf8_encode c) @ utf8_string cs"
  "utf8_string (cs @ ds) = utf8_string cs @ utf8_string ds"
  by (simp_all add: utf8_string_def utf8_bytes_def)

end
