(* ===== verification/Uri.thy ===== *)
theory Uri
  imports Utf8
begin

text \<open>
  \<open>decodeURIComponent\<close>, the ECMAScript built-in that \<open>TextInputEditable\<close> applies to
  the value it displays (TextInputEditable.tsx, lines 89 and 143). It is not code
  of the repository; it is modelled from the Decode algorithm of ECMA-262
  (section "Decode (string, preserveEscapeSet)", with the empty preserve set). A JavaScript
  string is read as its UTF-8 bytes, so a decoded escape sequence contributes its
  octets unchanged. Every \<open>throw URIError\<close> of the algorithm is the value
  \<^term>\<open>Inl URIError\<close>. The algorithm's loop over the string index is a structural
  recursion over the rest of the string whose state is the octets of the multi-byte
  sequence read so far and the number of continuation octets still expected. The last
  section proves that the decoder inverts the percent-encoding of every UTF-8 text of
  scalar values. The table relies on this to display a stored expression's text.
\<close>

datatype uri_error = URIError

definition hex_digit :: "char \<Rightarrow> nat option" where
  "hex_digit c =
     (let n = of_char c :: nat in
      if 48 \<le> n \<and> n \<le> 57 then Some (n - 48)
      else if 65 \<le> n \<and> n \<le> 70 then Some (n - 55)
      else if 97 \<le> n \<and> n \<le> 102 then Some (n - 87)
      else None)"

definition hex_byte :: "char \<Rightarrow> char \<Rightarrow> nat option" where
  "hex_byte h1 h2 =
     (case (hex_digit h1, hex_digit h2) of
        (Some a, Some b) \<Rightarrow> Some (16 * a + b)
      | _ \<Rightarrow> None)"

text \<open>
  "If Octets does not contain a valid UTF-8 encoding of a Unicode code point, throw a
  URIError": no overlong form, no surrogate, nothing above U+10FFFF.
\<close>

definition utf8_valid :: "nat list \<Rightarrow> bool" where
  "utf8_valid bs =
     (let v = utf8_code_point bs; n = length bs in
      if n = 2 then 128 \<le> v
      else if n = 3 then 2048 \<le> v \<and> \<not> (55296 \<le> v \<and> v \<le> 57343)
      else if n = 4 then 65536 \<le> v \<and> v \<le> 1114111
      else False)"

fun decode_from :: "nat list \<Rightarrow> nat \<Rightarrow> js_string \<Rightarrow> uri_error + js_string" where
  "decode_from octets k [] = (if k = 0 then Inr [] else Inl URIError)"
| "decode_from octets k (c # s) =
     (if c \<noteq> CHR ''%'' then
        (if k = 0 then map_sum id (Cons c) (decode_from [] 0 s) else Inl URIError)
      else
        (case s of
           h1 # h2 # r \<Rightarrow>
             (case hex_byte h1 h2 of
                None \<Rightarrow> Inl URIError
              | Some b \<Rightarrow>
                  if k = 0 then
                    (if b < 128 then map_sum id (Cons (char_of b)) (decode_from [] 0 r)
                     else if utf8_lead_ones b \<in> {2, 3, 4}
                     then decode_from [b] (utf8_lead_ones b - 1) r
                     else Inl URIError)
                  else if b div 64 = 2 then
                    (if k = 1 then
                       (if utf8_valid (octets @ [b])
                        then map_sum id ((@) (map char_of (octets @ [b]))) (decode_from [] 0 r)
                        else Inl URIError)
                     else decode_from (octets @ [b]) (k - 1) r)
                  else Inl URIError)
         | _ \<Rightarrow> Inl URIError))"

definition decodeURIComponent :: "js_string \<Rightarrow> uri_error + js_string" where
  "decodeURIComponent s = decode_from [] 0 s"

section \<open>Percent-encoding of UTF-8 text\<close>

text \<open>
  \<open>pct_encode\<close> writes every octet as an escape \<open>%XY\<close> with upper-case hexadecimal
  digits. It is a reference encoder, not code of the program; the program only decodes.
  The round trip shows that the decoder rebuilds every text of Unicode scalar values
  from its escapes. So its validity checks reject nothing that a UTF-8 encoder produces.
\<close>

definition hex_char :: "nat \<Rightarrow> char" where
  "hex_char d = (if d < 10 then char_of (48 + d) else char_of (55 + d))"

definition pct_octet :: "nat \<Rightarrow> js_string" where
  "pct_octet b = [CHR ''%'', hex_char (b div 16), hex_char (b mod 16)]"

definition pct_encode :: "nat list \<Rightarrow> js_string" where
  "pct_encode bs = concat (map pct_octet bs)"

declare decodeURIComponent_def [table_simps]

section \<open>Lemmas on the decoder\<close>

lemma hex_digit_pct [simp]: "hex_digit CHR ''%'' = None"
  by (simp add: hex_digit_def)

lemma hex_byte_pct [simp]: "hex_byte h CHR ''%'' = None"
  by (simp add: hex_byte_def split: option.splits)

lemma hex_byte_bound: "hex_byte h1 h2 = Some b \<Longrightarrow> b < 256"
  by (auto simp: hex_byte_def hex_digit_def Let_def split: option.splits if_splits)

lemma isl_uri_error: "isl r \<Longrightarrow> r = Inl URIError"
  by (cases r) (simp_all add: uri_error.exhaust [of "projl r"], metis uri_error.exhaust)

lemma decode_from_no_pct:
  "CHR ''%'' \<notin> set s \<Longrightarrow> decode_from [] 0 s = Inr s"
  by (induction s) auto


lemma pct_string_induct [case_names Nil Lit Pct0 Pct1 Esc]:
  assumes "P []"
    and "\<And>c s. c \<noteq> CHR ''%'' \<Longrightarrow> P s \<Longrightarrow> P (c # s)"
    and "P [CHR ''%'']"
    and "\<And>h. P [CHR ''%'', h]"
    and "\<And>h1 h2 r. P r \<Longrightarrow> P (CHR ''%'' # h1 # h2 # r)"
  shows "P s"
proof (induction "length s" arbitrary: s rule: less_induct)
  case less
  show ?case
  proof (cases s rule: remdups_adj.cases)
    case 1 then show ?thesis using assms(1) by simp
  next
    case (2 c)
    then show ?thesis using assms(1,2,3) by (cases "c = CHR ''%''") auto
  next
    case (3 c h1 r)
    show ?thesis
    proof (cases "c = CHR ''%''")
      case False
      with 3 less.hyps show ?thesis using assms(2) by simp
    next
      case True
      show ?thesis
      proof (cases r)
        case Nil with 3 True show ?thesis using assms(4) by simp
      next
        case (Cons h2 r2)
        with 3 True less.hyps show ?thesis using assms(5) by simp
      qed
    qed
  qed
qed

lemma decode_from_last_pct:
  "s \<noteq> [] \<Longrightarrow> last s = CHR ''%'' \<Longrightarrow> isl (decode_from acc k s)"
proof (induction s arbitrary: acc k rule: pct_string_induct)
  case (Lit c s)
  then have "s \<noteq> []" by auto
  with Lit show ?case by (simp add: isl_map_sum)
next
  case (Esc h1 h2 r)
  show ?case
  proof (cases "r = []")
    case True
    with Esc.prems show ?thesis by simp
  next
    case False
    with Esc have "isl (decode_from acc' k' r)" for acc' k' by simp
    then show ?thesis by (simp add: isl_map_sum split: option.splits)
  qed
qed simp_all

text \<open>A trailing percent sign makes decoding throw URIError.\<close>

lemma decodeURIComponent_trailing_pct:
  "s \<noteq> [] \<Longrightarrow> last s = CHR ''%'' \<Longrightarrow> decodeURIComponent s = Inl URIError"
proof -
  assume "s \<noteq> []" and "last s = CHR ''%''"
  then have "isl (decode_from [] 0 s)" by (rule decode_from_last_pct)
  then show ?thesis by (simp add: decodeURIComponent_def isl_uri_error)
qed

section \<open>Round trip\<close>


lemma hex_digit_hex_char: "d < 16 \<Longrightarrow> hex_digit (hex_char d) = Some d"
  by (auto simp: hex_char_def hex_digit_def Let_def)

lemma hex_byte_pct_octet: "b < 256 \<Longrightarrow> hex_byte (hex_char (b div 16)) (hex_char (b mod 16)) = Some b"
  by (simp add: hex_byte_def hex_digit_hex_char less_mult_imp_div_less)

lemma pct_encode_simps [simp]:
  "pct_encode [] = []"
  "pct_encode (b # bs) = CHR ''%'' # hex_char (b div 16) # hex_char (b mod 16) # pct_encode bs"
  by (simp_all add: pct_encode_def pct_octet_def)

lemma decode_from_conts:
  assumes "\<forall>x \<in> set cs. x div 64 = 2 \<and> x < 256" "length cs = k" "0 < k"
  shows "decode_from octs k (pct_encode cs @ r) =
           (if utf8_valid (octs @ cs) then map_sum id ((@) (map char_of (octs @ cs))) (decode_from [] 0 r)
            else Inl URIError)"
  using assms
proof (induction cs arbitrary: octs k)
  case (Cons x xs)
  then show ?case by (cases xs) (auto simp: hex_byte_pct_octet)
qed simp


lemma utf8_valid_encode: "scalar_value cp \<Longrightarrow> 128 \<le> cp \<Longrightarrow> utf8_valid (utf8_encode cp)"
  by (simp add: utf8_valid_def utf8_code_point_encode scalar_value_def Let_def)
     (simp add: utf8_encode_def)

lemma utf8_encode_multi:
  assumes "128 \<le> cp" "cp < 1114112"
  obtains b cs where "utf8_encode cp = b # cs" "\<not> b < 128" "utf8_lead_ones b = Suc (length cs)"
    "utf8_lead_ones b \<in> {2, 3, 4}" "\<forall>x \<in> set cs. x div 64 = 2 \<and> x < 256" "b < 256"
proof -
  obtain b cs where e: "utf8_encode cp = b # cs" by (cases "utf8_encode cp") auto
  have lead: "\<not> b < 128" using assms e by (auto simp: utf8_encode_def split: if_splits)
  have len: "utf8_lead_ones b = Suc (length cs)"
    using utf8_encode_length [OF assms(2)] e lead by simp
  have l234: "length (utf8_encode cp) \<in> {2, 3, 4}" using assms by (simp add: utf8_encode_def)
  have cont: "\<forall>x \<in> set cs. x div 64 = 2 \<and> x < 256"
    using utf8_encode_cont [of _ cp] utf8_encode_bound [of _ cp] assms(2) e by auto
  have "b < 256" using utf8_encode_bound [of b cp] assms(2) e by simp
  with e lead len l234 cont that show ?thesis by simp
qed

lemma decode_from_encode_cp:
  assumes "scalar_value cp"
  shows "decode_from [] 0 (pct_encode (utf8_encode cp) @ r)
           = map_sum id ((@) (map char_of (utf8_encode cp))) (decode_from [] 0 r)"
proof (cases "cp < 128")
  case True
  then show ?thesis
    by (cases "decode_from [] 0 r") (simp_all add: utf8_encode_def hex_byte_pct_octet)
next
  case False
  from assms have bound: "cp < 1114112" by (simp add: scalar_value_def)
  from False have "128 \<le> cp" by simp
  then obtain b cs where e: "utf8_encode cp = b # cs" and lead: "\<not> b < 128"
    and len: "utf8_lead_ones b = Suc (length cs)" and l: "utf8_lead_ones b \<in> {2, 3, 4}"
    and cont: "\<forall>x \<in> set cs. x div 64 = 2 \<and> x < 256" and b: "b < 256"
    using bound by (rule utf8_encode_multi)
  have v: "utf8_valid (b # cs)" using utf8_valid_encode [OF assms] False e by simp
  have "0 < length cs" using len l by auto
  with cont v have "decode_from [b] (length cs) (pct_encode cs @ r)
      = map_sum id ((@) (map char_of (b # cs))) (decode_from [] 0 r)"
    by (simp add: decode_from_conts)
  with e lead len l b show ?thesis by (simp add: hex_byte_pct_octet)
qed

text \<open>The round trip, from the code points to the escapes and back.\<close>

lemma decodeURIComponent_pct_encode:
  "\<forall>cp \<in> set cps. scalar_value cp \<Longrightarrow>
   decodeURIComponent (pct_encode (utf8_bytes cps)) = Inr (utf8_string cps)"
proof (induction cps)
  case Nil
  then show ?case by (simp add: decodeURIComponent_def utf8_bytes_def)
next
  case (Cons cp cps)
  have "pct_encode (utf8_bytes (cp # cps)) = pct_encode (utf8_encode cp) @ pct_encode (utf8_bytes cps)"
    by (simp add: pct_encode_def utf8_bytes_def)
  with Cons show ?case
    by (simp add: decodeURIComponent_def decode_from_encode_cp)
qed

end
