(* ===== verification/Js_String.thy ===== *)
theory Js_String
  imports Utf8
begin

text \<open>
  The JavaScript string operations the components call, from ECMA-262, on strings read
  as UTF-8 bytes (theory \<open>Utf8\<close>).
  \<^item> \<open>String.prototype.trim\<close> (TrimString): removes leading and trailing code points
    of WhiteSpace (TAB, VT, FF, ZWNBSP and the category Zs) and LineTerminator (LF,
    CR, LS, PS). \<open>js_space_seqs\<close> holds their UTF-8 encodings, and the two loops
    \<open>js_trim_start\<close> and \<open>js_trim_end\<close> remove one encoded space at a time; they are
    \<^theory_text>\<open>function\<close>s, shown to end by the measure \<open>length\<close>.
  \<^item> \<open>String.prototype.includes\<close>: StringIndexOf's loop over the candidate
    positions (\<open>string_index_of\<close>, -1 for not found), terminating by the measure
    \<open>length s + 1 - i\<close>.
  \<^item> \<open>String.prototype.toLowerCase\<close>, on ASCII letters only (see \<open>js_lower\<close>).
  The main lemma, \<open>js_trim_utf8\<close>, says that trim on the bytes of a text is the
  encoding of trim on its code points. \<open>ExpressionTable.validateEdit_trims_buffer\<close>
  applies it to the buffer that \<open>validateEdit\<close> passes to the validator.
\<close>

section \<open>toLowerCase\<close>

text \<open>
  \<open>toLowerCase\<close> maps the ASCII capitals to small letters. The Unicode case mapping of
  the other code points is not modelled: the only use, in \<open>onKeyUp\<close>, compares the
  result with ASCII words, and its outcome does not depend on it.
\<close>

definition js_lower_char :: "char \<Rightarrow> char" where
  "js_lower_char c =
     (if of_char c \<in> {65..90 :: nat} then char_of (of_char c + (32 :: nat)) else c)"

definition js_lower :: "js_string \<Rightarrow> js_string" where
  "js_lower s = map js_lower_char s"

section \<open>trim\<close>

text \<open>WhiteSpace and LineTerminator code points, and their UTF-8 encodings.\<close>

definition js_space_code_points :: "nat list" where
  "js_space_code_points =
     [9, 11, 12, 65279, 32, 160, 5760, 8192, 8193, 8194, 8195, 8196, 8197, 8198, 8199, 8200, 8201,
      8202, 8239, 8287, 12288, 10, 13, 8232, 8233]"

definition js_space_seqs :: "js_string list" where
  "js_space_seqs =
     [[CHR 0x09], [CHR 0x0B], [CHR 0x0C], [CHR 0xEF, CHR 0xBB, CHR 0xBF], [CHR 0x20],
      [CHR 0xC2, CHR 0xA0], [CHR 0xE1, CHR 0x9A, CHR 0x80],
      [CHR 0xE2, CHR 0x80, CHR 0x80], [CHR 0xE2, CHR 0x80, CHR 0x81], [CHR 0xE2, CHR 0x80, CHR 0x82],
      [CHR 0xE2, CHR 0x80, CHR 0x83], [CHR 0xE2, CHR 0x80, CHR 0x84], [CHR 0xE2, CHR 0x80, CHR 0x85],
      [CHR 0xE2, CHR 0x80, CHR 0x86], [CHR 0xE2, CHR 0x80, CHR 0x87], [CHR 0xE2, CHR 0x80, CHR 0x88],
      [CHR 0xE2, CHR 0x80, CHR 0x89], [CHR 0xE2, CHR 0x80, CHR 0x8A], [CHR 0xE2, CHR 0x80, CHR 0xAF],
      [CHR 0xE2, CHR 0x81, CHR 0x9F], [CHR 0xE3, CHR 0x80, CHR 0x80],
      [CHR 0x0A], [CHR 0x0D], [CHR 0xE2, CHR 0x80, CHR 0xA8], [CHR 0xE2, CHR 0x80, CHR 0xA9]]"

function js_trim_start :: "js_string \<Rightarrow> js_string" where
  "js_trim_start s =
     (case List.find (\<lambda>w. prefix w s) js_space_seqs of
        Some w \<Rightarrow> js_trim_start (drop (length w) s)
      | None \<Rightarrow> s)"
  by pat_completeness auto
termination
proof (relation "measure length")
  fix s w
  assume "List.find (\<lambda>w. prefix w s) js_space_seqs = Some w"
  then have "prefix w s" and "w \<in> set js_space_seqs" by (auto simp: find_Some_iff)
  moreover have "[] \<notin> set js_space_seqs" by (simp add: js_space_seqs_def)
  ultimately show "(drop (length w) s, s) \<in> measure length"
    by (cases w) (auto dest: prefix_length_le)
qed simp

function js_trim_end :: "js_string \<Rightarrow> js_string" where
  "js_trim_end s =
     (case List.find (\<lambda>w. suffix w s) js_space_seqs of
        Some w \<Rightarrow> js_trim_end (take (length s - length w) s)
      | None \<Rightarrow> s)"
  by pat_completeness auto
termination
proof (relation "measure length")
  fix s w
  assume "List.find (\<lambda>w. suffix w s) js_space_seqs = Some w"
  then have "suffix w s" and "w \<in> set js_space_seqs" by (auto simp: find_Some_iff)
  moreover have "[] \<notin> set js_space_seqs" by (simp add: js_space_seqs_def)
  ultimately show "(take (length s - length w) s, s) \<in> measure length"
    by (cases w) (auto dest: suffix_length_le)
qed simp

definition js_trim :: "js_string \<Rightarrow> js_string" where
  "js_trim s = js_trim_end (js_trim_start s)"

section \<open>includes\<close>

text \<open>
  StringIndexOf(s, v, i): the first position from \<open>i\<close> at which \<open>v\<close> occurs,
  or -1; \<open>s.includes(v)\<close> is StringIndexOf(s, v, 0) \<open>\<noteq>\<close> -1.
\<close>

function string_index_of :: "js_string \<Rightarrow> js_string \<Rightarrow> nat \<Rightarrow> int" where
  "string_index_of s v i =
     (if length s < i + length v then -1
      else if take (length v) (drop i s) = v then int i
      else string_index_of s v (Suc i))"
  by pat_completeness auto
termination
  by (relation "measure (\<lambda>(s, v, i). Suc (length s) - i)") auto

definition js_includes :: "js_string \<Rightarrow> js_string \<Rightarrow> bool" where
  "js_includes s v = (string_index_of s v 0 \<noteq> -1)"

section \<open>Reference definitions\<close>

text \<open>Trim at the level of code points: the specification's TrimString before any encoding.\<close>

definition trim_code_points :: "nat list \<Rightarrow> nat list" where
  "trim_code_points cps =
     rev (dropWhile (\<lambda>c. c \<in> set js_space_code_points)
       (rev (dropWhile (\<lambda>c. c \<in> set js_space_code_points) cps)))"

section \<open>Lemmas\<close>

declare js_trim_start.simps [simp del] js_trim_end.simps [simp del] string_index_of.simps [simp del]

lemma js_space_seqs_utf8: "js_space_seqs = map (\<lambda>cp. map char_of (utf8_encode cp)) js_space_code_points"
proof -
  have e: "map (map of_char) js_space_seqs = map utf8_encode js_space_code_points"
    by (simp add: js_space_seqs_def js_space_code_points_def utf8_encode_def)
  have "js_space_seqs = map (map char_of) (map (map (of_char :: char \<Rightarrow> nat)) js_space_seqs)"
    by (simp add: comp_def)
  also have "\<dots> = map (map char_of) (map utf8_encode js_space_code_points)"
    by (simp only: e)
  finally show ?thesis by (simp add: comp_def)
qed


lemma js_space_code_points_bound: "cp \<in> set js_space_code_points \<Longrightarrow> cp < 1114112"
  by (auto simp: js_space_code_points_def)

lemma js_space_seqs_ne: "[] \<notin> set js_space_seqs"
  by (simp add: js_space_seqs_def)

lemma map_of_char_char_of: "\<forall>x \<in> set xs. x < 256 \<Longrightarrow> map of_char (map char_of xs) = (xs :: nat list)"
  by (induction xs) simp_all

lemma utf8_encode_bytes: "cp < 1114112 \<Longrightarrow> \<forall>x \<in> set (utf8_encode cp). x < 256"
  using utf8_encode_bound by blast

lemma prefix_map_char_of:
  assumes "\<forall>x \<in> set xs. x < 256" "\<forall>x \<in> set ys. x < 256"
  shows "prefix (map char_of xs) (map char_of ys) \<longleftrightarrow> prefix xs (ys :: nat list)"
proof
  assume "prefix (map char_of xs) (map char_of ys)"
  then have "prefix (map of_char (map char_of xs)) (map (of_char :: char \<Rightarrow> nat) (map char_of ys))"
    by (rule map_mono_prefix)
  with assms show "prefix xs ys" by (simp only: map_of_char_char_of)
qed (rule map_mono_prefix)

lemma suffix_map_char_of:
  assumes "\<forall>x \<in> set xs. x < 256" "\<forall>x \<in> set ys. x < 256"
  shows "suffix (map char_of xs) (map char_of ys) \<longleftrightarrow> suffix xs (ys :: nat list)"
proof
  assume "suffix (map char_of xs) (map char_of ys)"
  then have "suffix (map of_char (map char_of xs)) (map (of_char :: char \<Rightarrow> nat) (map char_of ys))"
    by (rule map_mono_suffix)
  with assms show "suffix xs ys" by (simp only: map_of_char_char_of)
qed (rule map_mono_suffix)

lemma find_eq_const:
  "\<forall>x \<in> set xs. P x = (x = c) \<Longrightarrow> List.find P xs = (if c \<in> set xs then Some c else None)"
  by (induction xs) auto

lemma find_map_comp: "List.find P (map f xs) = map_option f (List.find (P \<circ> f) xs)"
  by (induction xs) auto

lemma find_space_seqs:
  assumes "\<forall>cp \<in> set js_space_code_points. P (map char_of (utf8_encode cp)) = (cp = c)"
  shows "List.find P js_space_seqs
           = (if c \<in> set js_space_code_points then Some (map char_of (utf8_encode c)) else None)"
proof -
  have "List.find P js_space_seqs = map_option (\<lambda>cp. map char_of (utf8_encode cp))
          (List.find (P \<circ> (\<lambda>cp. map char_of (utf8_encode cp))) js_space_code_points)"
    by (simp only: js_space_seqs_utf8 find_map_comp)
  also have "List.find (P \<circ> (\<lambda>cp. map char_of (utf8_encode cp))) js_space_code_points
      = (if c \<in> set js_space_code_points then Some c else None)"
    using assms by (intro find_eq_const) simp
  finally show ?thesis by simp
qed

lemma find_space_prefix:
  assumes "c < 1114112"
  shows "List.find (\<lambda>w. prefix w (map char_of (utf8_encode c) @ r)) js_space_seqs
           = (if c \<in> set js_space_code_points then Some (map char_of (utf8_encode c)) else None)"
proof (rule find_space_seqs, intro ballI)
  fix cp assume "cp \<in> set js_space_code_points"
  then have cp: "cp < 1114112" by (rule js_space_code_points_bound)
  have b: "\<forall>x \<in> set (utf8_encode c @ map of_char r). x < (256::nat)"
    using utf8_encode_bytes [OF assms] by auto
  have "map char_of (utf8_encode c) @ r = map char_of (utf8_encode c @ map of_char r)"
    by (simp add: comp_def)
  then have "prefix (map char_of (utf8_encode cp)) (map char_of (utf8_encode c) @ r)
      \<longleftrightarrow> prefix (utf8_encode cp) (utf8_encode c @ map of_char r)"
    using prefix_map_char_of [OF utf8_encode_bytes [OF cp] b] by simp
  also have "\<dots> \<longleftrightarrow> cp = c" by (rule utf8_prefix_iff [OF cp assms])
  finally show "prefix (map char_of (utf8_encode cp)) (map char_of (utf8_encode c) @ r) = (cp = c)" .
qed

lemma find_space_suffix:
  assumes "c < 1114112"
  shows "List.find (\<lambda>w. suffix w (r @ map char_of (utf8_encode c))) js_space_seqs
           = (if c \<in> set js_space_code_points then Some (map char_of (utf8_encode c)) else None)"
proof (rule find_space_seqs, intro ballI)
  fix cp assume "cp \<in> set js_space_code_points"
  then have cp: "cp < 1114112" by (rule js_space_code_points_bound)
  have b: "\<forall>x \<in> set (map of_char r @ utf8_encode c). x < (256::nat)"
    using utf8_encode_bytes [OF assms] by auto
  have "r @ map char_of (utf8_encode c) = map char_of (map of_char r @ utf8_encode c)"
    by (simp add: comp_def)
  then have "suffix (map char_of (utf8_encode cp)) (r @ map char_of (utf8_encode c))
      \<longleftrightarrow> suffix (utf8_encode cp) (map of_char r @ utf8_encode c)"
    using suffix_map_char_of [OF utf8_encode_bytes [OF cp] b] by simp
  also have "\<dots> \<longleftrightarrow> cp = c" by (rule utf8_suffix_last [OF cp assms])
  finally show "suffix (map char_of (utf8_encode cp)) (r @ map char_of (utf8_encode c)) = (cp = c)" .
qed

lemma js_trim_start_utf8:
  "\<forall>c \<in> set cps. c < 1114112 \<Longrightarrow>
   js_trim_start (utf8_string cps) = utf8_string (dropWhile (\<lambda>c. c \<in> set js_space_code_points) cps)"
proof (induction cps)
  case Nil
  have "List.find (\<lambda>w. prefix w []) js_space_seqs = None" by (simp add: js_space_seqs_def)
  then show ?case by (subst js_trim_start.simps) simp
next
  case (Cons c cs)
  then show ?case
    by (subst js_trim_start.simps) (simp add: find_space_prefix)
qed

lemma js_trim_end_utf8:
  "\<forall>c \<in> set cps. c < 1114112 \<Longrightarrow>
   js_trim_end (utf8_string cps) = utf8_string (rev (dropWhile (\<lambda>c. c \<in> set js_space_code_points) (rev cps)))"
proof (induction cps rule: rev_induct)
  case Nil
  have "List.find (\<lambda>w. suffix w []) js_space_seqs = None" by (simp add: js_space_seqs_def)
  then show ?case by (subst js_trim_end.simps) simp
next
  case (snoc c cs)
  then show ?case
    by (subst js_trim_end.simps) (simp add: find_space_suffix)
qed

lemma js_space_seqs_ends:
  "w \<in> set js_space_seqs \<Longrightarrow>
   w \<noteq> [] \<and> \<not> ((32::nat) < of_char (hd w) \<and> of_char (hd w) < (127::nat))
          \<and> \<not> ((32::nat) < of_char (last w) \<and> of_char (last w) < (127::nat))"
  by (auto simp: js_space_seqs_def)

lemma js_trim_id:
  assumes "s = [] \<or> ((32::nat) < of_char (hd s) \<and> of_char (hd s) < (127::nat)
                      \<and> (32::nat) < of_char (last s) \<and> of_char (last s) < (127::nat))"
  shows "js_trim s = s"
proof -
  have "\<not> prefix w s" if "w \<in> set js_space_seqs" for w
    using js_space_seqs_ends [OF that] assms by (cases s; cases w) auto
  then have "List.find (\<lambda>w. prefix w s) js_space_seqs = None" by (auto simp: find_None_iff)
  then have "js_trim_start s = s" by (subst js_trim_start.simps) simp
  moreover have "\<not> suffix w s" if "w \<in> set js_space_seqs" for w
  proof
    assume "suffix w s"
    then obtain zs where "s = zs @ w" by (auto simp: suffix_def)
    with js_space_seqs_ends [OF that] assms show False by auto
  qed
  then have "List.find (\<lambda>w. suffix w s) js_space_seqs = None" by (auto simp: find_None_iff)
  then have "js_trim_end s = s" by (subst js_trim_end.simps) simp
  ultimately show ?thesis by (simp add: js_trim_def)
qed

text \<open>
  trim on the bytes of a text is the encoding of trim on its code points: the loops
  remove exactly the leading and trailing WhiteSpace and LineTerminator code points.
\<close>

lemma js_trim_utf8:
  "\<forall>c \<in> set cps. scalar_value c \<Longrightarrow> js_trim (utf8_string cps) = utf8_string (trim_code_points cps)"
proof -
  assume "\<forall>c \<in> set cps. scalar_value c"
  then have b: "\<forall>c \<in> set cps. c < 1114112" by (simp add: scalar_value_def)
  then have "\<forall>c \<in> set (dropWhile (\<lambda>c. c \<in> set js_space_code_points) cps). c < 1114112"
    by (auto dest: set_dropWhileD)
  with b show ?thesis
    by (simp add: js_trim_def trim_code_points_def js_trim_start_utf8 js_trim_end_utf8)
qed

end
