(* ===== verification/TextInputEditable.thy ===== *)
theory TextInputEditable
  imports Uri Js_String
begin

text \<open>
  The row-level field (src/ui/common_components/TextInputEditable.tsx). It is a pure
  function of its props: \<open>TextInputEditable\<close> maps the props to the element it
  renders, an editable input when \<open>canEdit\<close> holds and a read-only textarea
  otherwise. Both branches call \<open>decodeURIComponent\<close>, so rendering can throw
  URIError, which is the \<open>Inl\<close> branch. The callbacks it receives
  (\<open>onChange\<close>, \<open>onEditClear\<close>, \<open>onEditSave\<close>, \<open>onEditStart\<close>) are the
  constructors of \<open>gesture\<close>. \<open>field_dispatch\<close> says which callbacks a user input
  on the rendered element invokes. The \<open>onKeyUp\<close> handler of the input evaluates
  \<open>onEditSave;\<close> and \<open>onEditClear;\<close> as expression statements, which read the
  function without calling it. \<open>js_stmt\<close> keeps that distinction.
\<close>

record field_props =
  altEditClear :: js_string
  altEditSave :: js_string
  altEditStart :: js_string
  canEdit :: bool
  defaultText :: "js_string option"
  editValue :: "js_string option"
  invalidFeedback :: "js_string option"
  field_name :: js_string
  field_text :: "js_string option"
  tooltipHref :: "js_string option"
  field_type :: "js_string option"
  field_value :: "js_string option"

datatype gesture = OnChange js_string | OnEditClear | OnEditSave | OnEditStart

text \<open>
  \<open>TextInputTitle\<close>: a label for the input, shown when \<open>text\<close> is non-empty, and a
  tooltip link, shown when \<open>tooltipHref\<close> is non-empty.
\<close>

datatype title_view = TitleView "(js_string \<times> js_string) option" "js_string option"

definition TextInputTitle :: "js_string \<Rightarrow> js_string option \<Rightarrow> js_string option \<Rightarrow> title_view" where
  "TextInputTitle nm t th =
     TitleView (case t of Some v \<Rightarrow> if v \<noteq> [] then Some (nm, v) else None | None \<Rightarrow> None)
       (if js_truthy th then th else None)"

text \<open>
  The two rendered shapes: the editable input (title, input id, displayed value,
  input type, invalid-feedback text, titles of the clear and save buttons) and the
  read-only text (title, textarea id, displayed text, title of the edit button).
\<close>

datatype field_view =
    EditableInput title_view js_string js_string js_string "js_string option" js_string js_string
  | ReadOnlyText title_view js_string js_string js_string

definition TextInputEditable :: "field_props \<Rightarrow> uri_error + field_view" where
  "TextInputEditable p =
     (if canEdit p then
        map_sum id
          (\<lambda>v. EditableInput (TextInputTitle (field_name p) (field_text p) (tooltipHref p))
                 (field_name p) v (js_or (field_type p) ''text'')
                 (if js_truthy (invalidFeedback p) then invalidFeedback p else None)
                 (altEditClear p) (altEditSave p))
          (decodeURIComponent (js_or (editValue p) ''''))
      else
        map_sum id
          (\<lambda>c. ReadOnlyText (TextInputTitle (field_name p) (field_text p) (tooltipHref p))
                 (field_name p) c (altEditStart p))
          (decodeURIComponent (js_or (field_value p) (js_or (defaultText p) ''''))))"

text \<open>An expression statement either only reads a callback or calls it.\<close>

datatype js_stmt = Reference gesture | Call gesture

fun exec_stmt :: "js_stmt \<Rightarrow> gesture list" where
  "exec_stmt (Reference g) = []"
| "exec_stmt (Call g) = [g]"

text \<open>
  The input's \<open>onKeyUp\<close> (lines 92--96):
  \<open>if (k === 'enter') onEditSave; else if (k.includes('escape')) onEditClear;\<close>.
\<close>

definition onKeyUp :: "js_string \<Rightarrow> gesture list" where
  "onKeyUp key =
     (let k = js_lower key in
      if k = ''enter'' then exec_stmt (Reference OnEditSave)
      else if js_includes k ''escape'' then exec_stmt (Reference OnEditClear)
      else [])"

text \<open>The user inputs a rendered field reacts to, and the callbacks each invokes.\<close>

datatype ui_input = TypeValue js_string | KeyUp js_string | ClickClear | ClickSave | ClickStart

fun field_dispatch :: "field_view \<Rightarrow> ui_input \<Rightarrow> gesture list" where
  "field_dispatch (EditableInput _ _ _ _ _ _ _) (TypeValue v) = [OnChange v]"
| "field_dispatch (EditableInput _ _ _ _ _ _ _) (KeyUp k) = onKeyUp k"
| "field_dispatch (EditableInput _ _ _ _ _ _ _) ClickClear = [OnEditClear]"
| "field_dispatch (EditableInput _ _ _ _ _ _ _) ClickSave = [OnEditSave]"
| "field_dispatch (ReadOnlyText _ _ _ _) ClickStart = [OnEditStart]"
| "field_dispatch _ _ = []"

fun is_editable :: "field_view \<Rightarrow> bool" where
  "is_editable (EditableInput _ _ _ _ _ _ _) = True"
| "is_editable (ReadOnlyText _ _ _ _) = False"

fun displayed_value :: "field_view \<Rightarrow> js_string" where
  "displayed_value (EditableInput _ _ v _ _ _ _) = v"
| "displayed_value (ReadOnlyText _ _ c _) = c"

fun shown_feedback :: "field_view \<Rightarrow> js_string option" where
  "shown_feedback (EditableInput _ _ _ _ f _ _) = f"
| "shown_feedback (ReadOnlyText _ _ _ _) = None"

text \<open>Sample props for the witnesses: an editable field with an empty buffer.\<close>

definition demo_props :: field_props where
  "demo_props =
     \<lparr>altEditClear = ''stop'', altEditSave = ''save'', altEditStart = ''edit'', canEdit = True,
      defaultText = None, editValue = Some [], invalidFeedback = None, field_name = ''1'',
      field_text = None, tooltipHref = None, field_type = Some ''url'', field_value = Some ''example.com''\<rparr>"

declare TextInputEditable_def [table_simps]

section \<open>Lemmas\<close>

lemma TextInputEditable_is_editable:
  "TextInputEditable p = Inr f \<Longrightarrow> is_editable f = canEdit p"
  by (auto simp: TextInputEditable_def split: if_splits)

lemma field_dispatch_length: "length (field_dispatch f i) \<le> 1"
  by (cases f; cases i) (simp_all add: onKeyUp_def Let_def)

lemma field_dispatch_start:
  "g \<in> set (field_dispatch f i) \<Longrightarrow> (g = OnEditStart) = (\<not> is_editable f)"
  by (cases f; cases i) (auto simp: onKeyUp_def Let_def split: if_splits)


text \<open>
  C18. No key released in the edit input invokes a callback: the Enter and Escape
  branches of onKeyUp only read onEditSave and onEditClear.
\<close>

theorem keyUp_invokes_nothing: "field_dispatch f (KeyUp k) = []"
  by (cases f) (simp_all add: onKeyUp_def Let_def)

text \<open>
  C25. An editable field renders, and displays exactly the typed buffer, when the
  buffer contains no percent sign.
\<close>

theorem display_roundtrip:
  assumes "canEdit p" and "CHR ''%'' \<notin> set v"
  shows "\<exists>f. TextInputEditable (p\<lparr>editValue := Some v\<rparr>) = Inr f \<and> displayed_value f = v \<and> is_editable f"
  using assms decode_from_no_pct [OF assms(2)]
  by (cases "v = []") (auto simp: TextInputEditable_def decodeURIComponent_def)

theorem display_roundtrip_witness:
  "canEdit demo_props \<and> CHR ''%'' \<notin> set ''example.org''
   \<and> TextInputEditable (demo_props\<lparr>editValue := Some ''example.org''\<rparr>)
       = Inr (EditableInput (TitleView None None) ''1'' ''example.org'' ''url'' None ''stop'' ''save'')
   \<and> displayed_value (EditableInput (TitleView None None) ''1'' ''example.org'' ''url'' None ''stop'' ''save'') = ''example.org''"
proof -
  have h: "canEdit demo_props" "CHR ''%'' \<notin> set ''example.org''" by (simp_all add: demo_props_def)
  have r: "TextInputEditable (demo_props\<lparr>editValue := Some ''example.org''\<rparr>)
       = Inr (EditableInput (TitleView None None) ''1'' ''example.org'' ''url'' None ''stop'' ''save'')"
    by (simp add: TextInputEditable_def demo_props_def TextInputTitle_def decodeURIComponent_def)
  show ?thesis using h r display_roundtrip [OF h] by simp
qed

text \<open>
  C26. The edit input shows the decoding of the buffer, not the buffer: for every
  buffer that decodes, an editable field renders and displays its decoding, which
  differs from what was typed whenever the buffer holds an escape.
\<close>

theorem display_decodes_buffer:
  assumes "canEdit p" and "decodeURIComponent v = Inr d"
  shows "\<exists>f. TextInputEditable (p\<lparr>editValue := Some v\<rparr>) = Inr f \<and> is_editable f \<and> displayed_value f = d"
  using assms by (cases "v = []") (auto simp: TextInputEditable_def decodeURIComponent_def)

theorem display_decodes_buffer_witness:
  "canEdit demo_props \<and> decodeURIComponent ''a%41'' = Inr [CHR ''a'', char_of (65::nat)]
   \<and> [CHR ''a'', char_of (65::nat)] \<noteq> ''a%41''
   \<and> map_sum id displayed_value (TextInputEditable (demo_props\<lparr>editValue := Some ''a%41''\<rparr>))
       = Inr [CHR ''a'', char_of (65::nat)]"
proof -
  have h: "canEdit demo_props" by (simp add: demo_props_def)
  have d: "decodeURIComponent ''a%41'' = Inr [CHR ''a'', char_of (65::nat)]"
    by (simp add: decodeURIComponent_def hex_byte_def hex_digit_def)
  from display_decodes_buffer [OF h d] h d show ?thesis by auto
qed

text \<open>
  C29. A rendered field shows the invalid-feedback text exactly when it is editable
  and the text is non-empty.
\<close>

theorem feedback_shown:
  "TextInputEditable p = Inr f \<Longrightarrow>
   shown_feedback f = (if canEdit p \<and> js_truthy (invalidFeedback p) then invalidFeedback p else None)"
  by (auto simp: TextInputEditable_def split: if_splits)

theorem feedback_shown_witness:
  "TextInputEditable (demo_props\<lparr>invalidFeedback := Some ''invalid''\<rparr>)
     = Inr (EditableInput (TitleView None None) ''1'' [] ''url'' (Some ''invalid'') ''stop'' ''save'')
   \<and> shown_feedback (EditableInput (TitleView None None) ''1'' [] ''url'' (Some ''invalid'') ''stop'' ''save'')
       = Some ''invalid''"
proof -
  have r: "TextInputEditable (demo_props\<lparr>invalidFeedback := Some ''invalid''\<rparr>)
     = Inr (EditableInput (TitleView None None) ''1'' [] ''url'' (Some ''invalid'') ''stop'' ''save'')"
    by (simp add: TextInputEditable_def demo_props_def TextInputTitle_def decodeURIComponent_def)
  show ?thesis using r feedback_shown [OF r] by (simp add: demo_props_def)
qed

end
