(* ===== verification/Expressions.thy ===== *)
theory Expressions
  imports Prelude
begin

text \<open>
  The records the table renders and the commands it sends to the store. An
  \<open>Expression\<close> (declared in the typings of the repository, outside src/) has an
  optional \<open>id\<close>, the \<open>expression\<close> text, a \<open>listType\<close> and a \<open>storeId\<close>; its
  other options (\<open>cleanAllCookies\<close>, \<open>cookieNames\<close>, ...) are the \<open>more\<close> part
  \<^typ>\<open>'a\<close> of the record scheme, so that an operation polymorphic in \<^typ>\<open>'a\<close>
  provably leaves them unchanged, as the object spread \<open>{...original}\<close> does.
  The store (redux) is outside the sources: the action creators
  \<open>updateExpressionUI\<close>/\<open>removeExpressionUI\<close> are constructors of
  \<open>store_action\<close>, and the reducer \<open>apply_action\<close> is modelled from the
  specification (an update replaces the record with the same id, a remove
  drops it).
\<close>

datatype ListType = WHITE | GREY

record expression =
  expression_id :: "js_string option"
  expression :: js_string
  listType :: ListType
  storeId :: js_string

datatype 'a store_action =
    UPDATE_EXPRESSION "'a expression_scheme"
  | REMOVE_EXPRESSION "'a expression_scheme"

text \<open>The toggle of the list-type button (ExpressionTable.tsx, lines 214--221).\<close>

definition toggled_list_type :: "ListType \<Rightarrow> ListType" where
  "toggled_list_type l = (if l = GREY then WHITE else GREY)"

text \<open>The React key of a row: \<open>`${expression.expression}-${expression.listType}`\<close>.\<close>

definition row_key :: "'a expression_scheme \<Rightarrow> js_string \<times> ListType" where
  "row_key e = (expression e, listType e)"

text \<open>The store's reducer for the two actions, from the specification.\<close>

fun apply_action :: "'a store_action \<Rightarrow> 'a expression_scheme list \<Rightarrow> 'a expression_scheme list" where
  "apply_action (UPDATE_EXPRESSION e) es =
     map (\<lambda>x. if expression_id x = expression_id e then e else x) es"
| "apply_action (REMOVE_EXPRESSION e) es = filter (\<lambda>x. expression_id x \<noteq> expression_id e) es"

definition apply_actions :: "'a store_action list \<Rightarrow> 'a expression_scheme list \<Rightarrow> 'a expression_scheme list" where
  "apply_actions acts es = fold apply_action acts es"

declare row_key_def [table_simps]

section \<open>Lemmas\<close>

lemma toggled_list_type_involutive [simp]: "toggled_list_type (toggled_list_type l) = l"
  by (cases l) (simp_all add: toggled_list_type_def)

lemma toggled_list_type_differs [simp]: "toggled_list_type l \<noteq> l"
  by (cases l) (simp_all add: toggled_list_type_def)

lemma apply_actions_simps [simp]:
  "apply_actions [] es = es"
  "apply_actions (a # acts) es = apply_actions acts (apply_action a es)"
  "apply_actions (acts @ acts') es = apply_actions acts' (apply_actions acts es)"
  by (simp_all add: apply_actions_def)

lemma apply_update_length [simp]: "length (apply_action (UPDATE_EXPRESSION e) es) = length es"
  by simp

lemma apply_update_ids:
  "map expression_id (apply_action (UPDATE_EXPRESSION e) es) = map expression_id es"
  by (induction es) auto

end
