(* ===== verification/ExpressionTable.thy ===== *)
theory ExpressionTable
  imports TextInputEditable Expressions
begin

text \<open>
  The table component (src/ui/common_components/ExpressionTable.tsx). The
  component instance is the record \<open>table\<close>: its props (\<open>expressions\<close>,
  \<open>storeId\<close>, \<open>expressionColumnTitle\<close>), its React state (the class
  \<open>EmptyState\<close>), the field \<open>this.editInput\<close> (\<open>editInput\<close>: whether the ref
  holds the mounted input), and the parts of the browser it touches: the mounted
  \<open><input>\<close> of the editable row with its custom validity and the
  \<open>was-validated\<close> class of its parent (\<open>inputNode\<close>), \<open>document.activeElement\<close>,
  the pending \<open>sleep(200).then(clearEdit)\<close> callbacks (\<open>timers\<close>), the redux
  actions dispatched so far, in order (\<open>dispatched\<close>), whether a \<open>setState\<close> is
  pending (\<open>dirty\<close>), and whether a render threw and React unmounted the tree
  (\<open>unmounted\<close>). Each method is one definition. \<open>setState\<close> only marks the state
  update as pending, as React batches it; the render and commit that follow are
  \<open>Table_Runtime.commit_update\<close>. The external collaborators are the record
  \<open>env\<close>: \<open>validateExpressionDomain\<close> (services/Libs, outside src/) and the
  \<open>shortid.generate()\<close> used for rows without id.
\<close>

record EmptyState =
  expressionInput :: js_string
  editMode :: bool
  state_id :: "js_string option"
  invalid :: js_string

definition empty_state :: EmptyState where
  "empty_state = \<lparr>expressionInput = '''', editMode = False, state_id = Some '''', invalid = ''''\<rparr>"

record input_node =
  node_key :: "js_string \<times> ListType"
  customValidity :: js_string
  wasValidated :: bool

definition fresh_input :: "js_string \<times> ListType \<Rightarrow> input_node" where
  "fresh_input k = \<lparr>node_key = k, customValidity = '''', wasValidated = False\<rparr>"

datatype focus = FormText | EditInput | OtherElement

record 'a env =
  validateExpressionDomain :: "js_string \<Rightarrow> js_string"
  shortid :: "'a expression_scheme \<Rightarrow> js_string"

record 'a table =
  expressions :: "'a expression_scheme list"
  props_storeId :: js_string
  expressionColumnTitle :: js_string
  state :: EmptyState
  editInput :: bool
  inputNode :: "input_node option"
  activeElement :: focus
  timers :: nat
  dispatched :: "'a store_action list"
  dirty :: bool
  unmounted :: bool

section \<open>Methods\<close>

definition setState :: "(EmptyState \<Rightarrow> EmptyState) \<Rightarrow> 'a table \<Rightarrow> 'a table" where
  "setState f t = t\<lparr>state := f (state t), dirty := True\<rparr>"

definition dispatch :: "'a store_action \<Rightarrow> 'a table \<Rightarrow> 'a table" where
  "dispatch a t = t\<lparr>dispatched := dispatched t @ [a]\<rparr>"

definition startEditing :: "'a expression_scheme \<Rightarrow> 'a table \<Rightarrow> 'a table" where
  "startEditing e t =
     setState (\<lambda>s. s\<lparr>editMode := True, expressionInput := expression e,
                      state_id := expression_id e, invalid := ''''\<rparr>) t"

definition clearEdit :: "'a table \<Rightarrow> 'a table" where
  "clearEdit t =
     setState (\<lambda>_. empty_state)
       (if editInput t
        then t\<lparr>inputNode := map_option (\<lambda>n. n\<lparr>wasValidated := False, customValidity := ''''\<rparr>)
                              (inputNode t),
               editInput := False\<rparr>
        else t)"

definition setInvalid :: "js_string \<Rightarrow> 'a table \<Rightarrow> bool \<times> 'a table" where
  "setInvalid s t =
     (if \<not> editInput t then (False, t)
      else (False,
            setState (\<lambda>st. st\<lparr>invalid := s\<rparr>)
              (t\<lparr>inputNode := map_option (\<lambda>n. n\<lparr>customValidity := s, wasValidated := True\<rparr>)
                                (inputNode t)\<rparr>)))"

definition validateEdit :: "'a env \<Rightarrow> 'a table \<Rightarrow> bool \<times> 'a table" where
  "validateEdit env t =
     (if \<not> editMode (state t) \<or> \<not> editInput t \<or> \<not> js_truthy (state_id (state t)) then (False, t)
      else
        let result = js_trim (validateExpressionDomain env (js_trim (expressionInput (state t))))
        in if result \<noteq> [] then setInvalid result t
           else (True, t\<lparr>inputNode := map_option (\<lambda>n. n\<lparr>customValidity := '''', wasValidated := False\<rparr>)
                                         (inputNode t)\<rparr>))"

definition commitEdit :: "'a env \<Rightarrow> 'a table \<Rightarrow> 'a table" where
  "commitEdit env t =
     (let (ok, t1) = validateEdit env t
      in if \<not> ok then t1
         else
           let t2 = (case List.find (\<lambda>e. expression_id e = state_id (state t1)) (expressions t1) of
                       Some original \<Rightarrow>
                         dispatch (UPDATE_EXPRESSION
                                     (original\<lparr>expression := expressionInput (state t1),
                                               storeId := props_storeId t1\<rparr>)) t1
                     | None \<Rightarrow> t1)
           in t2\<lparr>timers := Suc (timers t2)\<rparr>)"

definition onChange :: "js_string \<Rightarrow> 'a table \<Rightarrow> 'a table" where
  "onChange v t = setState (\<lambda>s. s\<lparr>expressionInput := v\<rparr>) t"

definition onRemoveExpression :: "'a expression_scheme \<Rightarrow> 'a table \<Rightarrow> 'a table" where
  "onRemoveExpression e t = dispatch (REMOVE_EXPRESSION e) t"

definition onToggleListType :: "'a expression_scheme \<Rightarrow> 'a table \<Rightarrow> 'a table" where
  "onToggleListType e t =
     dispatch (UPDATE_EXPRESSION (e\<lparr>listType := toggled_list_type (listType e)\<rparr>)) t"

section \<open>Render\<close>

definition canEdit_row :: "'a table \<Rightarrow> 'a expression_scheme \<Rightarrow> bool" where
  "canEdit_row t e = (editMode (state t) \<and> state_id (state t) = expression_id e)"

text \<open>The props of the row's \<open>TextInputEditable\<close>; i18n messages are kept as their keys.\<close>

definition row_props :: "'a env \<Rightarrow> 'a table \<Rightarrow> 'a expression_scheme \<Rightarrow> field_props" where
  "row_props env t e =
     \<lparr>altEditClear = ''stopEditingText'', altEditSave = ''saveExpressionText'',
      altEditStart = ''editExpressionText'', canEdit = canEdit_row t e,
      defaultText = None, editValue = Some (expressionInput (state t)),
      invalidFeedback = Some (invalid (state t)),
      field_name = js_or (expression_id e) (shortid env e), field_text = None,
      tooltipHref = None, field_type = Some ''url'', field_value = Some (expression e)\<rparr>"

definition list_word :: "ListType \<Rightarrow> js_string" where
  "list_word l = (if l = WHITE then ''whiteListWordText'' else ''greyListWordText'')"

definition toggle_title :: "ListType \<Rightarrow> js_string" where
  "toggle_title l =
     (if l = WHITE then ''toggleToGreyListWordText'' else ''toggleToWhiteListWordText'')"

text \<open>A row: key, title of the remove button, the field, the options, list word, toggle title.\<close>

datatype 'a row_view =
  ExpressionRow "js_string \<times> ListType" js_string field_view "'a expression_scheme" js_string js_string

datatype 'a table_view = EmptyElement | Table "js_string list" "'a row_view list"

definition render_row :: "'a env \<Rightarrow> 'a table \<Rightarrow> 'a expression_scheme \<Rightarrow> uri_error + 'a row_view" where
  "render_row env t e =
     map_sum id
       (\<lambda>f. ExpressionRow (row_key e) ''removeExpressionText'' f e
              (list_word (listType e)) (toggle_title (listType e)))
       (TextInputEditable (row_props env t e))"

definition render :: "'a env \<Rightarrow> 'a table \<Rightarrow> uri_error + 'a table_view" where
  "render env t =
     (if expressions t = [] then Inr EmptyElement
      else map_sum id (Table ['''', expressionColumnTitle t, ''optionsText'', ''listTypeText''])
             (sequence_sum (map (render_row env t) (expressions t))))"

text \<open>The key and the field of a rendered row.\<close>

fun row_view_key :: "'a row_view \<Rightarrow> js_string \<times> ListType" where
  "row_view_key (ExpressionRow k _ _ _ _ _) = k"

fun row_view_field :: "'a row_view \<Rightarrow> field_view" where
  "row_view_field (ExpressionRow _ _ f _ _ _) = f"

section \<open>Sample data for the witnesses\<close>

text \<open>
  A validator standing in for \<open>validateExpressionDomain\<close> (it rejects the empty
  string and strings with a space, returning a message), one stored expression,
  and the table editing it with a given buffer and error text, or idle.
\<close>

definition demo_env :: "unit env" where
  "demo_env =
     \<lparr>validateExpressionDomain =
        (\<lambda>s. if s = [] then ''empty'' else if CHR '' '' \<in> set s then ''invalid'' else []),
      shortid = (\<lambda>_. ''generated'')\<rparr>"

definition demo_expression :: expression where
  "demo_expression =
     \<lparr>expression_id = Some ''1'', expression = ''example.com'', listType = GREY, storeId = ''default''\<rparr>"

definition demo_editing :: "js_string \<Rightarrow> js_string \<Rightarrow> unit table" where
  "demo_editing buf err =
     \<lparr>expressions = [demo_expression], props_storeId = ''default'', expressionColumnTitle = ''Expression'',
      state = \<lparr>expressionInput = buf, editMode = True, state_id = Some ''1'', invalid = err\<rparr>,
      editInput = True, inputNode = Some (fresh_input (''example.com'', GREY)),
      activeElement = EditInput, timers = 0, dispatched = [], dirty = False, unmounted = False\<rparr>"

definition demo_idle :: "unit table" where
  "demo_idle = (demo_editing [] [])\<lparr>state := empty_state, editInput := False, inputNode := None,
                                     activeElement := OtherElement\<rparr>"

declare setState_def [table_simps] fresh_input_def [table_simps] canEdit_row_def [table_simps]
  row_props_def [table_simps] render_def [table_simps] render_row_def [table_simps]

section \<open>Lemmas\<close>

lemma canEdit_row_fun: "canEdit_row t = (\<lambda>e. editMode (state t) \<and> state_id (state t) = expression_id e)"
  by (rule ext) (simp add: canEdit_row_def)

text \<open>
  C9. Saving outside an edit session, with no mounted input, or with an empty or
  missing target id does nothing at all.
\<close>

theorem commitEdit_guard:
  "\<not> editMode (state t) \<or> \<not> editInput t \<or> \<not> js_truthy (state_id (state t)) \<Longrightarrow> commitEdit env t = t"
  by (auto simp: commitEdit_def validateEdit_def)

theorem commitEdit_guard_witness:
  "\<not> editMode (state demo_idle) \<and> commitEdit demo_env demo_idle = demo_idle"
proof -
  have h: "\<not> editMode (state demo_idle)" by (simp add: demo_idle_def empty_state_def)
  then have d: "\<not> editMode (state demo_idle) \<or> \<not> editInput demo_idle \<or> \<not> js_truthy (state_id (state demo_idle))"
    by simp
  show ?thesis using h commitEdit_guard [OF d] by simp
qed

text \<open>
  C6. Saving while the validator rejects the trimmed buffer emits no command and
  schedules no teardown; it only sets the error text to the trimmed message and marks
  the input invalid, keeping the session.
\<close>

theorem commitEdit_invalid:
  assumes "editMode (state t)" and "editInput t" and "js_truthy (state_id (state t))"
    and "js_trim (validateExpressionDomain env (js_trim (expressionInput (state t)))) = r"
    and "r \<noteq> []"
  shows "commitEdit env t =
           t\<lparr>state := (state t)\<lparr>invalid := r\<rparr>,
             inputNode := map_option (\<lambda>n. n\<lparr>customValidity := r, wasValidated := True\<rparr>) (inputNode t),
             dirty := True\<rparr>"
  using assms by (simp add: commitEdit_def validateEdit_def setInvalid_def setState_def Let_def)

lemma commitEdit_invalid_witness:
  "editMode (state (demo_editing ''bad url'' [])) \<and> editInput (demo_editing ''bad url'' []) \<and>
   js_truthy (state_id (state (demo_editing ''bad url'' []))) \<and>
   js_trim (validateExpressionDomain demo_env (js_trim (expressionInput (state (demo_editing ''bad url'' []))))) = ''invalid'' \<and>
   commitEdit demo_env (demo_editing ''bad url'' []) = (demo_editing ''bad url'' [])\<lparr>state := (state (demo_editing ''bad url'' []))\<lparr>invalid := ''invalid''\<rparr>,
     inputNode := Some \<lparr>node_key = (''example.com'', GREY), customValidity = ''invalid'', wasValidated = True\<rparr>, dirty := True\<rparr>"
proof -
  have h: "editMode (state (demo_editing ''bad url'' []))" "editInput (demo_editing ''bad url'' [])"
    "js_truthy (state_id (state (demo_editing ''bad url'' [])))"
    "js_trim (validateExpressionDomain demo_env (js_trim (expressionInput (state (demo_editing ''bad url'' []))))) = ''invalid''"
    by (simp_all add: demo_editing_def demo_env_def js_trim_id)
  show ?thesis using h commitEdit_invalid [OF h] by (simp add: demo_editing_def fresh_input_def)
qed


text \<open>
  C7. Saving a valid buffer for a record present in the collection emits exactly one
  update command, the original record with its text replaced by the raw buffer and its
  storeId by the table's, and schedules one teardown; the session state is untouched
  until the teardown.
\<close>

theorem commitEdit_valid:
  assumes "editMode (state t)" and "editInput t" and "js_truthy (state_id (state t))"
    and "js_trim (validateExpressionDomain env (js_trim (expressionInput (state t)))) = []"
    and "List.find (\<lambda>e. expression_id e = state_id (state t)) (expressions t) = Some orig"
  shows "commitEdit env t =
           t\<lparr>inputNode := map_option (\<lambda>n. n\<lparr>customValidity := [], wasValidated := False\<rparr>) (inputNode t),
             dispatched := dispatched t @ [UPDATE_EXPRESSION
                             (orig\<lparr>expression := expressionInput (state t), storeId := props_storeId t\<rparr>)],
             timers := Suc (timers t)\<rparr>"
  using assms by (simp add: commitEdit_def validateEdit_def dispatch_def Let_def)

lemma commitEdit_valid_witness:
  "editMode (state (demo_editing ''example.org'' [])) \<and> editInput (demo_editing ''example.org'' []) \<and>
   js_truthy (state_id (state (demo_editing ''example.org'' []))) \<and>
   js_trim (validateExpressionDomain demo_env (js_trim (expressionInput (state (demo_editing ''example.org'' []))))) = [] \<and>
   List.find (\<lambda>e. expression_id e = state_id (state (demo_editing ''example.org'' [])))
     (expressions (demo_editing ''example.org'' [])) = Some demo_expression \<and>
   dispatched (commitEdit demo_env (demo_editing ''example.org'' [])) =
     [UPDATE_EXPRESSION (demo_expression\<lparr>expression := ''example.org''\<rparr>)] \<and>
   timers (commitEdit demo_env (demo_editing ''example.org'' [])) = 1"
proof -
  have h: "editMode (state (demo_editing ''example.org'' []))" "editInput (demo_editing ''example.org'' [])"
    "js_truthy (state_id (state (demo_editing ''example.org'' [])))"
    "js_trim (validateExpressionDomain demo_env (js_trim (expressionInput (state (demo_editing ''example.org'' []))))) = []"
    "List.find (\<lambda>e. expression_id e = state_id (state (demo_editing ''example.org'' [])))
       (expressions (demo_editing ''example.org'' [])) = Some demo_expression"
    by (simp_all add: demo_editing_def demo_env_def demo_expression_def js_trim_id)
  show ?thesis using h commitEdit_valid [OF h]
    by (simp add: demo_editing_def demo_expression_def)
qed

text \<open>
  C8. Saving a valid buffer whose target record is no longer in the collection emits
  nothing and still schedules one teardown.
\<close>

theorem commitEdit_missing_record:
  assumes "editMode (state t)" and "editInput t" and "js_truthy (state_id (state t))"
    and "js_trim (validateExpressionDomain env (js_trim (expressionInput (state t)))) = []"
    and "List.find (\<lambda>e. expression_id e = state_id (state t)) (expressions t) = None"
  shows "commitEdit env t =
           t\<lparr>inputNode := map_option (\<lambda>n. n\<lparr>customValidity := [], wasValidated := False\<rparr>) (inputNode t),
             timers := Suc (timers t)\<rparr>"
  using assms by (simp add: commitEdit_def validateEdit_def Let_def)

lemma commitEdit_missing_record_witness:
  "editMode (state ((demo_editing ''example.org'' [])\<lparr>expressions := []\<rparr>)) \<and>
   editInput ((demo_editing ''example.org'' [])\<lparr>expressions := []\<rparr>) \<and>
   js_truthy (state_id (state ((demo_editing ''example.org'' [])\<lparr>expressions := []\<rparr>))) \<and>
   js_trim (validateExpressionDomain demo_env (js_trim (expressionInput (state ((demo_editing ''example.org'' [])\<lparr>expressions := []\<rparr>))))) = [] \<and>
   List.find (\<lambda>e. expression_id e = state_id (state ((demo_editing ''example.org'' [])\<lparr>expressions := []\<rparr>)))
     (expressions ((demo_editing ''example.org'' [])\<lparr>expressions := []\<rparr>)) = None \<and>
   dispatched (commitEdit demo_env ((demo_editing ''example.org'' [])\<lparr>expressions := []\<rparr>)) = [] \<and>
   timers (commitEdit demo_env ((demo_editing ''example.org'' [])\<lparr>expressions := []\<rparr>)) = 1"
proof -
  let ?t = "(demo_editing ''example.org'' [])\<lparr>expressions := []\<rparr>"
  have h: "editMode (state ?t)" "editInput ?t" "js_truthy (state_id (state ?t))"
    "js_trim (validateExpressionDomain demo_env (js_trim (expressionInput (state ?t)))) = []"
    "List.find (\<lambda>e. expression_id e = state_id (state ?t)) (expressions ?t) = None"
    by (simp_all add: demo_editing_def demo_env_def js_trim_id)
  show ?thesis using h commitEdit_missing_record [OF h] by (simp add: demo_editing_def)
qed

text \<open>
  C14. Starting an edit and cancelling it returns the state to the empty one and emits
  no command, leaving the collection and the pending timers unchanged.
\<close>

theorem startEditing_clearEdit:
  "state (clearEdit (startEditing e t)) = empty_state \<and>
   dispatched (clearEdit (startEditing e t)) = dispatched t \<and>
   expressions (clearEdit (startEditing e t)) = expressions t \<and>
   timers (clearEdit (startEditing e t)) = timers t"
  by (simp add: clearEdit_def startEditing_def setState_def)

text \<open>
  C15. Cancelling leaves the table idle: the state is the empty one, the ref is
  released and no command is sent; cancelling a second time changes nothing.
\<close>

theorem clearEdit_idempotent:
  "state (clearEdit t) = empty_state \<and> \<not> editInput (clearEdit t) \<and> dispatched (clearEdit t) = dispatched t
   \<and> clearEdit (clearEdit t) = clearEdit t"
  by (simp add: clearEdit_def setState_def)

text \<open>
  C16. Starting an edit while another one is active switches the target: the result is
  the same as starting the second edit alone (last writer wins).
\<close>

theorem startEditing_switch:
  "state (startEditing b (startEditing a t)) = state (startEditing b t) \<and>
   state_id (state (startEditing b (startEditing a t))) = expression_id b \<and>
   expressionInput (state (startEditing b (startEditing a t))) = expression b"
  by (simp add: startEditing_def setState_def)

text \<open>
  C17. A successful validation does not change the component state: in particular a
  previous error message stays in the state.
\<close>

theorem validateEdit_keeps_state:
  "validateEdit env t = (True, t') \<Longrightarrow> state t' = state t"
  by (auto simp: validateEdit_def setInvalid_def Let_def split: if_splits)

lemma validateEdit_keeps_state_witness:
  "validateEdit demo_env (demo_editing ''example.org'' ''invalid'') =
     (True, (demo_editing ''example.org'' ''invalid'')\<lparr>inputNode := Some (fresh_input (''example.com'', GREY))\<rparr>) \<and>
   invalid (state (demo_editing ''example.org'' ''invalid'')) = ''invalid''"
proof -
  have v: "validateEdit demo_env (demo_editing ''example.org'' ''invalid'') =
     (True, (demo_editing ''example.org'' ''invalid'')\<lparr>inputNode := Some (fresh_input (''example.com'', GREY))\<rparr>)"
    by (simp add: validateEdit_def demo_editing_def demo_env_def js_trim_id fresh_input_def)
  from validateEdit_keeps_state [OF v] v show ?thesis by (simp add: demo_editing_def)
qed

text \<open>
  C13. validateEdit passes the validator the buffer without its leading and trailing
  white space, trimmed as code points (the full WhiteSpace and LineTerminator set):
  for a buffer that is the UTF-8 text of scalar values, a ready session validates
  exactly when the trimmed validator message on the trimmed text is empty, and a
  rejection shows that message.
\<close>

theorem validateEdit_trims_buffer:
  assumes "editMode (state t)" and "editInput t" and "js_truthy (state_id (state t))"
    and "expressionInput (state t) = utf8_string cps" and "\<forall>c \<in> set cps. scalar_value c"
  shows "fst (validateEdit env t) =
           (js_trim (validateExpressionDomain env (utf8_string (trim_code_points cps))) = [])
         \<and> invalid (state (snd (validateEdit env t))) =
           (if js_trim (validateExpressionDomain env (utf8_string (trim_code_points cps))) = []
            then invalid (state t)
            else js_trim (validateExpressionDomain env (utf8_string (trim_code_points cps))))"
  using assms js_trim_utf8 [OF assms(5)]
  by (simp add: validateEdit_def setInvalid_def setState_def Let_def)

text \<open>
  C12. A row that is not being edited shows its stored text decoded: when the record's
  text is the percent-encoding of a non-empty UTF-8 text of Unicode scalar values, the
  row's field renders read-only, without URIError, and displays that text.
\<close>

theorem row_shows_decoded_expression:
  assumes "\<not> canEdit_row t e" and "expression e = pct_encode (utf8_bytes cps)" and "cps \<noteq> []"
    and "\<forall>cp \<in> set cps. scalar_value cp"
  shows "\<exists>f. TextInputEditable (row_props env t e) = Inr f \<and> \<not> is_editable f
             \<and> displayed_value f = utf8_string cps"
proof -
  obtain c cs where "cps = c # cs" using assms(3) by (cases cps) auto
  then obtain b bs where "utf8_bytes cps = b # bs" by (cases "utf8_encode c") (simp_all add: utf8_bytes_def)
  then have ne: "pct_encode (utf8_bytes cps) \<noteq> []" by simp
  from assms(1,2) ne decodeURIComponent_pct_encode [OF assms(4)] show ?thesis
    by (simp add: TextInputEditable_def row_props_def)
qed

text \<open>
  C28. The list-type toggle emits one update command whose record differs from the
  row's record only in the list type, which is the other one.
\<close>

theorem onToggleListType_fields:
  "\<exists>e'. dispatched (onToggleListType e t) = dispatched t @ [UPDATE_EXPRESSION e']
        \<and> listType e' \<noteq> listType e \<and> e'\<lparr>listType := listType e\<rparr> = e
        \<and> state (onToggleListType e t) = state t"
  by (simp add: onToggleListType_def dispatch_def)


lemma distinct_map_filter_eq_le1:
  "distinct (map f xs) \<Longrightarrow> length (filter (\<lambda>x. f x = c) xs) \<le> 1"
  by (induction xs) (auto simp: filter_empty_conv image_iff)

lemma render_Table:
  assumes "render env t = Inr (Table hs rows)"
  shows "rows = map (projr \<circ> render_row env t) (expressions t)
         \<and> (\<forall>e \<in> set (expressions t). \<not> isl (render_row env t e))"
  using assms sequence_sum_map_Inr [of "render_row env t" "expressions t"]
  by (auto simp: render_def split: if_splits)

lemma render_row_view:
  "render_row env t e = Inr r \<Longrightarrow> row_view_key r = row_key e \<and> is_editable (row_view_field r) = canEdit_row t e"
  by (auto simp: render_row_def row_props_def dest!: TextInputEditable_is_editable)

lemma render_row_Inr: "\<not> isl (render_row env t e) \<Longrightarrow> render_row env t e = Inr (projr (render_row env t e))"
  by (cases "render_row env t e") simp_all

text \<open>
  C19. A successful render of a non-empty collection has one row per record, in the
  collection's order, keyed by the record's text and list type, and a row's field is
  editable exactly when the table is in edit mode and the record's id equals the
  edited id.
\<close>

theorem render_rows:
  assumes "render env t = Inr (Table hs rows)"
  shows "list_all2 (\<lambda>r e. row_view_key r = (expression e, listType e)
                          \<and> is_editable (row_view_field r) = (editMode (state t) \<and> state_id (state t) = expression_id e))
           rows (expressions t)"
proof -
  from render_Table [OF assms] have rows: "rows = map (projr \<circ> render_row env t) (expressions t)"
    and ok: "\<forall>e \<in> set (expressions t). \<not> isl (render_row env t e)" by blast+
  have "row_view_key (projr (render_row env t e)) = (expression e, listType e)
        \<and> is_editable (row_view_field (projr (render_row env t e)))
            = (editMode (state t) \<and> state_id (state t) = expression_id e)"
    if "e \<in> set (expressions t)" for e
  proof -
    from ok that have "\<not> isl (render_row env t e)" by blast
    from render_row_view [OF render_row_Inr [OF this]] show ?thesis
      by (simp add: row_key_def canEdit_row_def)
  qed
  then show ?thesis unfolding rows by (auto simp: list_all2_conv_all_nth)
qed

text \<open>With distinct ids, at most one row has \<open>canEdit\<close>.\<close>

lemma canEdit_rows_le1:
  "distinct (map expression_id (expressions t)) \<Longrightarrow> length (filter (canEdit_row t) (expressions t)) \<le> 1"
  using distinct_map_filter_eq_le1 [of expression_id "expressions t" "state_id (state t)"]
  by (cases "editMode (state t)") (simp_all add: canEdit_row_def [abs_def] eq_commute)

text \<open>The editable fields of a rendered table are those of the rows with \<open>canEdit\<close>.\<close>

lemma render_editable_rows:
  assumes "render env t = Inr (Table hs rows)"
  shows "length (filter (\<lambda>r. is_editable (row_view_field r)) rows)
           = length (filter (canEdit_row t) (expressions t))"
proof -
  from render_Table [OF assms] have rows: "rows = map (projr \<circ> render_row env t) (expressions t)"
    and ok: "\<forall>e \<in> set (expressions t). \<not> isl (render_row env t e)" by blast+
  have "filter (\<lambda>r. is_editable (row_view_field r)) rows
          = map (projr \<circ> render_row env t) (filter (canEdit_row t) (expressions t))"
    unfolding rows filter_map
    by (rule arg_cong [where f = "map _"], rule filter_cong)
       (use ok render_row_view render_row_Inr in fastforce)+
  then show ?thesis by simp
qed

text \<open>
  C5. When the record ids are distinct, a successful render shows at most one editable
  field: the edit session is exclusive across the whole list.
\<close>

theorem render_single_editable:
  assumes "render env t = Inr (Table hs rows)" and "distinct (map expression_id (expressions t))"
  shows "length (filter (\<lambda>r. is_editable (row_view_field r)) rows) \<le> 1"
proof -
  have "length (filter (\<lambda>r. is_editable (row_view_field r)) rows)
          = length (filter (canEdit_row t) (expressions t))"
    using assms(1) by (rule render_editable_rows)
  also have "\<dots> \<le> 1" using assms(2) by (rule canEdit_rows_le1)
  finally show ?thesis .
qed

text \<open>
  C20. The table renders the caller's empty element exactly when the collection is
  empty.
\<close>

theorem render_empty_iff: "render env t = Inr EmptyElement \<longleftrightarrow> expressions t = []"
  by (simp add: render_def)

lemma demo_render:
  "render demo_env (demo_editing ''example.org'' []) =
     Inr (Table [[], ''Expression'', ''optionsText'', ''listTypeText'']
       [ExpressionRow (''example.com'', GREY) ''removeExpressionText''
          (EditableInput (TitleView None None) ''1'' ''example.org'' ''url'' None
             ''stopEditingText'' ''saveExpressionText'')
          demo_expression ''greyListWordText'' ''toggleToWhiteListWordText''])"
  by (simp add: render_def render_row_def row_props_def demo_editing_def demo_expression_def
      TextInputEditable_def TextInputTitle_def decodeURIComponent_def canEdit_row_def row_key_def
      list_word_def toggle_title_def)

theorem render_rows_witness:
  "render demo_env (demo_editing ''example.org'' []) =
     Inr (Table [[], ''Expression'', ''optionsText'', ''listTypeText'']
       [ExpressionRow (''example.com'', GREY) ''removeExpressionText''
          (EditableInput (TitleView None None) ''1'' ''example.org'' ''url'' None
             ''stopEditingText'' ''saveExpressionText'')
          demo_expression ''greyListWordText'' ''toggleToWhiteListWordText''])
   \<and> canEdit_row (demo_editing ''example.org'' []) demo_expression"
proof -
  have "canEdit_row (demo_editing ''example.org'' []) demo_expression"
    by (simp add: canEdit_row_def demo_editing_def demo_expression_def)
  with demo_render render_rows [OF demo_render] show ?thesis by simp
qed

theorem render_single_editable_witness:
  "render demo_env (demo_editing ''example.org'' []) =
     Inr (Table [[], ''Expression'', ''optionsText'', ''listTypeText'']
       [ExpressionRow (''example.com'', GREY) ''removeExpressionText''
          (EditableInput (TitleView None None) ''1'' ''example.org'' ''url'' None
             ''stopEditingText'' ''saveExpressionText'')
          demo_expression ''greyListWordText'' ''toggleToWhiteListWordText''])
   \<and> distinct (map expression_id (expressions (demo_editing ''example.org'' [])))
   \<and> length (filter (\<lambda>r. is_editable (row_view_field r))
        [ExpressionRow (''example.com'', GREY) ''removeExpressionText''
          (EditableInput (TitleView None None) ''1'' ''example.org'' ''url'' None
             ''stopEditingText'' ''saveExpressionText'')
          demo_expression ''greyListWordText'' ''toggleToWhiteListWordText'']) \<le> 1"
proof -
  have d: "distinct (map expression_id (expressions (demo_editing ''example.org'' [])))"
    by (simp add: demo_editing_def)
  show ?thesis using demo_render d render_single_editable [OF demo_render d] by simp
qed

theorem validateEdit_trims_buffer_witness:
  "editMode (state (demo_editing (utf8_string [32, 97, 160]) []))
   \<and> editInput (demo_editing (utf8_string [32, 97, 160]) [])
   \<and> js_truthy (state_id (state (demo_editing (utf8_string [32, 97, 160]) [])))
   \<and> list_all scalar_value [32, 97, 160]
   \<and> fst (validateEdit demo_env (demo_editing (utf8_string [32, 97, 160]) []))"
proof -
  let ?t = "demo_editing (utf8_string [32, 97, 160]) []"
  have h: "editMode (state ?t)" "editInput ?t" "js_truthy (state_id (state ?t))"
    "expressionInput (state ?t) = utf8_string [32, 97, 160]"
    by (simp_all add: demo_editing_def)
  have s: "\<forall>c \<in> set [32, 97, 160::nat]. scalar_value c" by (simp add: scalar_value_def)
  have "trim_code_points [32, 97, 160] = [97]"
    by (simp add: trim_code_points_def js_space_code_points_def)
  moreover have "char_of (97::nat) = CHR ''a''" using char_of_char [of "CHR ''a''"] by simp
  ultimately have "js_trim (validateExpressionDomain demo_env (utf8_string (trim_code_points [32, 97, 160]))) = []"
    by (simp add: demo_env_def utf8_encode_def js_trim_id)
  with validateEdit_trims_buffer [OF h s] h s show ?thesis by (simp add: list_all_iff)
qed

theorem row_shows_decoded_expression_witness:
  "\<not> canEdit_row demo_idle (demo_expression\<lparr>expression := pct_encode (utf8_bytes [233])\<rparr>)
   \<and> [233::nat] \<noteq> [] \<and> list_all scalar_value [233::nat]
   \<and> map_sum id displayed_value
        (TextInputEditable (row_props demo_env demo_idle
           (demo_expression\<lparr>expression := pct_encode (utf8_bytes [233])\<rparr>)))
       = Inr (utf8_string [233])"
proof -
  let ?e = "demo_expression\<lparr>expression := pct_encode (utf8_bytes [233])\<rparr>"
  have c: "\<not> canEdit_row demo_idle ?e" by (simp add: canEdit_row_def demo_idle_def empty_state_def)
  have s: "\<forall>cp \<in> set [233::nat]. scalar_value cp" by (simp add: scalar_value_def)
  have x: "expression ?e = pct_encode (utf8_bytes [233])" by simp
  from row_shows_decoded_expression [OF c x _ s] obtain f
    where "TextInputEditable (row_props demo_env demo_idle ?e) = Inr f" "displayed_value f = utf8_string [233]"
    by auto
  with c s show ?thesis by simp
qed

end
