(* ===== verification/Session_Spec.thy ===== *)
theory Session_Spec
  imports ExpressionTable
begin

text \<open>
  The abstract contract of the edit-session controller, written from the
  specification (sections 3 and 4.1): an \<open>EditSession\<close> with \<open>active\<close>,
  \<open>targetId\<close>, \<open>buffer\<close> and \<open>error\<close>, together with the commands emitted to the
  store and the number of teardowns scheduled. Its operations are \<open>startEdit\<close>,
  \<open>changeBuffer\<close>, \<open>validate\<close>, \<open>commitEdit\<close> and \<open>cancelEdit\<close>. The abstraction
  function \<open>abs_session\<close> reads a table as a session, and \<open>impl_op\<close> maps each
  operation to the handler of ExpressionTable.tsx that implements it. The refinement
  theorem says that each handler implements its operation, under the conditions the
  theorem names. One condition is that no earlier error is shown when a validation
  succeeds: the code does not clear it (see \<open>ExpressionTable.validateEdit_keeps_state\<close>).
\<close>

record 'a session =
  active :: bool
  targetId :: "js_string option"
  buffer :: js_string
  error :: js_string
  commands :: "'a store_action list"
  teardowns :: nat

datatype 'a session_op =
    StartEdit "'a expression_scheme"
  | ChangeBuffer js_string
  | Validate
  | CommitEdit
  | CancelEdit
  | RemoveRecord "'a expression_scheme"
  | ToggleListType "'a expression_scheme"
  | Teardown

text \<open>
  The specification's operations. \<open>V\<close> is the domain validator (empty means valid),
  \<open>es\<close> the current collection. Besides the five session operations, the
  specification names \<open>removeRecord\<close> (a remove command, from any state) and the
  teardown that \<open>commitEdit\<close> schedules, which resets the session to Idle when it
  fires. The list-type toggle is an external collaborator of the specification's core;
  it is the command it emits.
\<close>

fun spec_step :: "(js_string \<Rightarrow> js_string) \<Rightarrow> 'a expression_scheme list \<Rightarrow> 'a session_op
                    \<Rightarrow> 'a session \<Rightarrow> 'a session" where
  "spec_step V es (StartEdit e) s =
     s\<lparr>active := True, targetId := expression_id e, buffer := expression e, error := []\<rparr>"
| "spec_step V es (ChangeBuffer v) s = (if active s then s\<lparr>buffer := v\<rparr> else s)"
| "spec_step V es Validate s =
     (if \<not> active s then s
      else let r = V (js_trim (buffer s)) in if r \<noteq> [] then s\<lparr>error := r\<rparr> else s\<lparr>error := []\<rparr>)"
| "spec_step V es CommitEdit s =
     (if \<not> active s then s
      else let r = V (js_trim (buffer s)) in
        if r \<noteq> [] then s\<lparr>error := r\<rparr>
        else s\<lparr>error := [],
               commands := commands s @
                 (case List.find (\<lambda>x. expression_id x = targetId s) es of
                    Some original \<Rightarrow> [UPDATE_EXPRESSION (original\<lparr>expression := buffer s\<rparr>)]
                  | None \<Rightarrow> []),
               teardowns := Suc (teardowns s)\<rparr>)"
| "spec_step V es CancelEdit s =
     s\<lparr>active := False, targetId := None, buffer := [], error := []\<rparr>"
| "spec_step V es (RemoveRecord e) s = s\<lparr>commands := commands s @ [REMOVE_EXPRESSION e]\<rparr>"
| "spec_step V es (ToggleListType e) s =
     s\<lparr>commands := commands s @ [UPDATE_EXPRESSION (e\<lparr>listType := toggled_list_type (listType e)\<rparr>)]\<rparr>"
| "spec_step V es Teardown s =
     s\<lparr>active := False, targetId := None, buffer := [], error := [], teardowns := teardowns s - 1\<rparr>"

definition abs_session :: "'a table \<Rightarrow> 'a session" where
  "abs_session t =
     (if editMode (state t)
      then \<lparr>active = True, targetId = state_id (state t), buffer = expressionInput (state t),
            error = invalid (state t), commands = dispatched t, teardowns = timers t\<rparr>
      else \<lparr>active = False, targetId = None, buffer = [], error = [],
            commands = dispatched t, teardowns = timers t\<rparr>)"

text \<open>The handler of the code for each operation.\<close>

fun impl_op :: "'a env \<Rightarrow> 'a session_op \<Rightarrow> 'a table \<Rightarrow> 'a table" where
  "impl_op env (StartEdit e) t = startEditing e t"
| "impl_op env (ChangeBuffer v) t = onChange v t"
| "impl_op env Validate t = snd (validateEdit env t)"
| "impl_op env CommitEdit t = commitEdit env t"
| "impl_op env CancelEdit t = clearEdit t"
| "impl_op env (RemoveRecord e) t = onRemoveExpression e t"
| "impl_op env (ToggleListType e) t = onToggleListType e t"
| "impl_op env Teardown t = clearEdit (t\<lparr>timers := timers t - 1\<rparr>)"

text \<open>The operation each callback of a row's field invokes (ExpressionTable.tsx, lines 167--174).\<close>

fun gesture_op :: "'a expression_scheme \<Rightarrow> gesture \<Rightarrow> 'a session_op" where
  "gesture_op e (OnChange v) = ChangeBuffer v"
| "gesture_op e OnEditClear = CancelEdit"
| "gesture_op e OnEditSave = CommitEdit"
| "gesture_op e OnEditStart = StartEdit e"

text \<open>
  A session the code can validate: while editing, the ref holds the mounted input and
  the target id is a non-empty string (validateEdit's first guard).
\<close>

definition session_ready :: "'a table \<Rightarrow> bool" where
  "session_ready t = (editMode (state t) \<longrightarrow> editInput t \<and> js_truthy (state_id (state t)))"

text \<open>
  The session without its error text: a successful validation clears the error in the
  specification and keeps it in the code (\<open>ExpressionTable.validateEdit_keeps_state\<close>),
  so the refinement over whole runs is stated on this view.
\<close>

definition forget_error :: "'a session \<Rightarrow> 'a session" where
  "forget_error s = s\<lparr>error := []\<rparr>"

section \<open>Refinement\<close>

lemma find_storeId_agree:
  "\<forall>e \<in> set es. storeId e = sid \<Longrightarrow> List.find P es = Some o' \<Longrightarrow>
   o'\<lparr>expression := v, storeId := sid\<rparr> = o'\<lparr>expression := v\<rparr>"
proof -
  assume all: "\<forall>e \<in> set es. storeId e = sid" and f: "List.find P es = Some o'"
  from f have "o' \<in> set es" by (metis find_Some_iff nth_mem)
  with all have "storeId o' = sid" by blast
  then show ?thesis by auto
qed

text \<open>
  Each handler implements its operation on the session without its error text; here no
  condition on the error shown before is needed.
\<close>

lemma impl_op_forget_error:
  assumes "op = Validate \<or> op = CommitEdit \<longrightarrow> session_ready t"
    and "\<forall>e \<in> set (expressions t). storeId e = props_storeId t"
  shows "forget_error (abs_session (impl_op env op t)) =
           forget_error (spec_step (\<lambda>s. js_trim (validateExpressionDomain env s)) (expressions t) op
                           (abs_session t))"
proof (cases op)
  case Validate
  with assms(1) show ?thesis
    by (auto simp: forget_error_def abs_session_def validateEdit_def setInvalid_def setState_def
        session_ready_def Let_def)
next
  case CommitEdit
  with assms show ?thesis
    by (auto simp: forget_error_def abs_session_def commitEdit_def validateEdit_def setInvalid_def
        setState_def session_ready_def dispatch_def Let_def find_storeId_agree split: option.splits)
qed (simp_all add: forget_error_def abs_session_def startEditing_def onChange_def clearEdit_def
       onRemoveExpression_def onToggleListType_def dispatch_def setState_def empty_state_def)

text \<open>
  C2. The handlers of the table implement the specification's operations (the five
  session operations, remove, the list-type toggle and the teardown firing): for a
  session the code can validate, in a table whose records belong to its store, and
  with no earlier error on screen when a validation or a save succeeds, reading the
  table after a handler gives the specification's operation applied to the session
  read before it, commands and scheduled teardowns included.
\<close>

theorem table_refines_session:
  assumes "session_ready t"
    and "\<forall>e \<in> set (expressions t). storeId e = props_storeId t"
    and "op = Validate \<or> op = CommitEdit \<longrightarrow> invalid (state t) = []"
  shows "abs_session (impl_op env op t) =
           spec_step (\<lambda>s. js_trim (validateExpressionDomain env s)) (expressions t) op (abs_session t)"
proof (cases op)
  case (StartEdit e)
  then show ?thesis by (simp add: abs_session_def startEditing_def setState_def)
next
  case (ChangeBuffer v)
  then show ?thesis by (simp add: abs_session_def onChange_def setState_def)
next
  case Validate
  with assms(1,3) show ?thesis
    by (auto simp: abs_session_def validateEdit_def setInvalid_def setState_def session_ready_def Let_def)
next
  case CommitEdit
  with assms show ?thesis
    by (auto simp: abs_session_def commitEdit_def validateEdit_def setInvalid_def setState_def
        session_ready_def dispatch_def Let_def find_storeId_agree split: option.splits)
next
  case CancelEdit
  then show ?thesis by (simp add: abs_session_def clearEdit_def setState_def empty_state_def)
next
  case (RemoveRecord e)
  then show ?thesis by (simp add: abs_session_def onRemoveExpression_def dispatch_def)
next
  case (ToggleListType e)
  then show ?thesis by (simp add: abs_session_def onToggleListType_def dispatch_def)
next
  case Teardown
  then show ?thesis by (simp add: abs_session_def clearEdit_def setState_def empty_state_def)
qed

theorem table_refines_session_witness:
  "session_ready (demo_editing ''example.org'' []) \<and>
   abs_session (impl_op demo_env CommitEdit (demo_editing ''example.org'' [])) =
     \<lparr>active = True, targetId = Some ''1'', buffer = ''example.org'', error = [],
      commands = [UPDATE_EXPRESSION (demo_expression\<lparr>expression := ''example.org''\<rparr>)], teardowns = 1\<rparr>"
proof -
  let ?t = "demo_editing ''example.org'' []"
  have h: "session_ready ?t" "\<forall>e \<in> set (expressions ?t). storeId e = props_storeId ?t"
    "CommitEdit = Validate \<or> CommitEdit = CommitEdit \<longrightarrow> invalid (state ?t) = []"
    by (simp_all add: session_ready_def demo_editing_def demo_expression_def)
  have a: "abs_session ?t = \<lparr>active = True, targetId = Some ''1'', buffer = ''example.org'', error = [],
      commands = [], teardowns = 0\<rparr>"
    by (simp add: abs_session_def demo_editing_def)
  have v: "js_trim (validateExpressionDomain demo_env (js_trim ''example.org'')) = []"
    by (simp add: demo_env_def js_trim_id)
  have f: "List.find (\<lambda>x. expression_id x = Some ''1'') (expressions ?t) = Some demo_expression"
    by (simp add: demo_editing_def demo_expression_def)
  show ?thesis using h(1) table_refines_session [OF h, of demo_env] a v f by (simp add: Let_def)
qed

end
