(* ===== verification/Table_Runtime.thy ===== *)
theory Table_Runtime
  imports ExpressionTable
begin

text \<open>
  The runtime around the table: what React does after a handler (render, mount
  and unmount of the edit input, the ref callback, \<open>autoFocus\<close>,
  \<open>componentDidUpdate\<close>), the events that reach the component (a user input on
  a row's field, the remove and toggle buttons, a pending teardown timer firing, new
  props from the store, the user moving focus elsewhere), the step function
  \<open>table_step\<close> that runs the handler and then the update, and the reachable
  states \<open>reach\<close>. A render that throws (URIError from the field) unmounts the
  tree: the instance is \<open>unmounted\<close> and no event reaches it any more.
\<close>

definition editing_rows :: "'a table \<Rightarrow> 'a expression_scheme list" where
  "editing_rows t = filter (canEdit_row t) (expressions t)"

text \<open>
  The key of the row whose input the ref holds after the commit: every row with
  \<open>canEdit\<close> mounts an input and calls the ref callback, the last one wins.
\<close>

definition mounted_key :: "'a table \<Rightarrow> (js_string \<times> ListType) option" where
  "mounted_key t = (if editing_rows t = [] then None else Some (row_key (last (editing_rows t))))"

text \<open>React keeps the DOM node of a row whose key is unchanged, and mounts a new one otherwise.\<close>

definition reconcile_input :: "(js_string \<times> ListType) option \<Rightarrow> input_node option \<Rightarrow> input_node option" where
  "reconcile_input k n =
     (case k of
        None \<Rightarrow> None
      | Some k' \<Rightarrow> (case n of
                      Some m \<Rightarrow> if node_key m = k' then Some m else Some (fresh_input k')
                    | None \<Rightarrow> Some (fresh_input k')))"

definition componentDidUpdate :: "'a table \<Rightarrow> 'a table" where
  "componentDidUpdate t =
     (if editInput t \<and> editMode (state t) \<and> activeElement t \<noteq> FormText
      then t\<lparr>activeElement := EditInput\<rparr> else t)"

text \<open>
  Render and commit: an unmounted focused input loses the focus to the body, a newly
  mounted input takes it (\<open>autoFocus={true}\<close>), the ref is set to the mounted input,
  then \<open>componentDidUpdate\<close> runs.
\<close>

definition commit_update :: "'a env \<Rightarrow> 'a table \<Rightarrow> 'a table" where
  "commit_update env t =
     (if isl (render env t) then t\<lparr>unmounted := True, dirty := False\<rparr>
      else
        let n' = reconcile_input (mounted_key t) (inputNode t);
            mounted = (n' \<noteq> None \<and> n' \<noteq> inputNode t);
            lost = (inputNode t \<noteq> None \<and> n' \<noteq> inputNode t);
            f1 = (if lost \<and> activeElement t = EditInput then OtherElement else activeElement t);
            f2 = (if mounted then EditInput else f1)
        in componentDidUpdate
             (t\<lparr>inputNode := n', editInput := (n' \<noteq> None), activeElement := f2, dirty := False\<rparr>))"

definition react_update :: "'a env \<Rightarrow> 'a table \<Rightarrow> 'a table" where
  "react_update env t = (if dirty t then commit_update env t else t)"

datatype 'a table_event =
    RowInput "'a expression_scheme" ui_input
  | ClickRemove "'a expression_scheme"
  | ClickToggle "'a expression_scheme"
  | TimerFires
  | NewProps "'a expression_scheme list"
  | MoveFocus focus

text \<open>The callbacks the table passes to the row of \<open>e\<close> (lines 167--174).\<close>

fun run_gesture :: "'a env \<Rightarrow> 'a expression_scheme \<Rightarrow> gesture \<Rightarrow> 'a table \<Rightarrow> 'a table" where
  "run_gesture env e (OnChange v) t = onChange v t"
| "run_gesture env e OnEditClear t = clearEdit t"
| "run_gesture env e OnEditSave t = commitEdit env t"
| "run_gesture env e OnEditStart t = startEditing e t"

definition row_field :: "'a env \<Rightarrow> 'a table \<Rightarrow> 'a expression_scheme \<Rightarrow> uri_error + field_view" where
  "row_field env t e = TextInputEditable (row_props env t e)"

fun handle_event :: "'a env \<Rightarrow> 'a table_event \<Rightarrow> 'a table \<Rightarrow> 'a table" where
  "handle_event env (RowInput e i) t =
     (case row_field env t e of
        Inl _ \<Rightarrow> t
      | Inr f \<Rightarrow> fold (run_gesture env e) (field_dispatch f i) t)"
| "handle_event env (ClickRemove e) t = onRemoveExpression e t"
| "handle_event env (ClickToggle e) t = onToggleListType e t"
| "handle_event env TimerFires t = clearEdit (t\<lparr>timers := timers t - 1\<rparr>)"
| "handle_event env (NewProps es) t = t\<lparr>expressions := es, dirty := True\<rparr>"
| "handle_event env (MoveFocus f) t = t\<lparr>activeElement := f\<rparr>"

definition table_step :: "'a env \<Rightarrow> 'a table_event \<Rightarrow> 'a table \<Rightarrow> 'a table" where
  "table_step env ev t = react_update env (handle_event env ev t)"

text \<open>
  Which events can happen: user inputs only on rendered rows of a mounted table, a
  timer only when one is pending, focus on the edit input only when it is mounted.
\<close>

fun enabled :: "'a table \<Rightarrow> 'a table_event \<Rightarrow> bool" where
  "enabled t (RowInput e _) = (\<not> unmounted t \<and> e \<in> set (expressions t))"
| "enabled t (ClickRemove e) = (\<not> unmounted t \<and> e \<in> set (expressions t))"
| "enabled t (ClickToggle e) = (\<not> unmounted t \<and> e \<in> set (expressions t))"
| "enabled t TimerFires = (\<not> unmounted t \<and> 0 < timers t)"
| "enabled t (NewProps _) = (\<not> unmounted t)"
| "enabled t (MoveFocus f) = (\<not> unmounted t \<and> (f = EditInput \<longrightarrow> inputNode t \<noteq> None))"

text \<open>The constructor and the first render (\<open>new EmptyState()\<close>, then mount).\<close>

definition mount :: "'a env \<Rightarrow> 'a expression_scheme list \<Rightarrow> js_string \<Rightarrow> js_string \<Rightarrow> focus \<Rightarrow> 'a table" where
  "mount env es sid title f =
     (let t = \<lparr>expressions = es, props_storeId = sid, expressionColumnTitle = title,
               state = empty_state, editInput = False, inputNode = None, activeElement = f,
               timers = 0, dispatched = [], dirty = False, unmounted = False\<rparr>
      in t\<lparr>unmounted := isl (render env t)\<rparr>)"

inductive reach :: "'a env \<Rightarrow> 'a table \<Rightarrow> bool" for env where
  reach_mount: "f \<noteq> EditInput \<Longrightarrow> reach env (mount env es sid title f)"
| reach_step: "reach env t \<Longrightarrow> enabled t ev \<Longrightarrow> reach env (table_step env ev t)"

fun run_events :: "'a env \<Rightarrow> 'a table_event list \<Rightarrow> 'a table \<Rightarrow> 'a table" where
  "run_events env [] t = t"
| "run_events env (ev # evs) t = run_events env evs (table_step env ev t)"

fun enabled_run :: "'a env \<Rightarrow> 'a table_event list \<Rightarrow> 'a table \<Rightarrow> bool" where
  "enabled_run env [] t = True"
| "enabled_run env (ev # evs) t = (enabled t ev \<and> enabled_run env evs (table_step env ev t))"

text \<open>
  The invariant of a mounted table: no state update is left pending, the ref holds
  exactly the mounted input, the input belongs to the row being edited, focus is on
  the edit input only while it is mounted, and outside an edit session the state is
  the empty one.
\<close>

definition table_inv :: "'a table \<Rightarrow> bool" where
  "table_inv t =
     (\<not> dirty t
      \<and> (\<not> unmounted t \<longrightarrow>
           (editInput t \<longleftrightarrow> inputNode t \<noteq> None)
           \<and> map_option node_key (inputNode t) = mounted_key t
           \<and> (activeElement t = EditInput \<longrightarrow> inputNode t \<noteq> None))
      \<and> (\<not> editMode (state t) \<longrightarrow> state t = empty_state))"

text \<open>
  The part of the invariant that a handler re-establishes before React's commit, and
  the condition a handler leaves: the invariant itself when no update is pending,
  the commit's precondition otherwise.
\<close>

definition pre_inv :: "'a table \<Rightarrow> bool" where
  "pre_inv t = ((activeElement t = EditInput \<longrightarrow> inputNode t \<noteq> None)
                \<and> (\<not> editMode (state t) \<longrightarrow> state t = empty_state))"

definition post_ok :: "'a table \<Rightarrow> bool" where
  "post_ok t = (if dirty t then pre_inv t else table_inv t)"

text \<open>The part of the state a render reads.\<close>

definition view_part :: "'a table \<Rightarrow> 'a expression_scheme list \<times> EmptyState \<times> js_string" where
  "view_part t = (expressions t, state t, expressionColumnTitle t)"

text \<open>The sample table of \<open>ExpressionTable\<close> after its first render.\<close>

definition demo_mounted :: "focus \<Rightarrow> unit table" where
  "demo_mounted f = mount demo_env [demo_expression] ''default'' ''Expression'' f"

declare table_step_def [table_simps] react_update_def [table_simps] row_field_def [table_simps]
  commit_update_def [table_simps] mounted_key_def [table_simps] editing_rows_def [table_simps]
  reconcile_input_def [table_simps] componentDidUpdate_def [table_simps]

section \<open>The invariant\<close>

lemma reconcile_input_key [simp]: "map_option node_key (reconcile_input k n) = k"
  by (auto simp: reconcile_input_def fresh_input_def split: option.splits)

lemma reconcile_input_None_iff [simp]: "reconcile_input k n = None \<longleftrightarrow> k = None"
  by (auto simp: reconcile_input_def split: option.splits)

lemma mounted_key_upd [simp]:
  "mounted_key (t\<lparr>inputNode := n\<rparr>) = mounted_key t"
  "mounted_key (t\<lparr>editInput := b\<rparr>) = mounted_key t"
  "mounted_key (t\<lparr>dirty := b\<rparr>) = mounted_key t"
  "mounted_key (t\<lparr>activeElement := f\<rparr>) = mounted_key t"
  "mounted_key (t\<lparr>timers := k\<rparr>) = mounted_key t"
  "mounted_key (t\<lparr>dispatched := as\<rparr>) = mounted_key t"
  "mounted_key (t\<lparr>unmounted := b\<rparr>) = mounted_key t"
  by (simp_all add: mounted_key_def editing_rows_def canEdit_row_fun)

lemma commit_update_inv:
  assumes "pre_inv t"
  shows "table_inv (commit_update env t)"
proof (cases "isl (render env t)")
  case True
  with assms show ?thesis by (simp add: commit_update_def table_inv_def pre_inv_def)
next
  case False
  define n' where "n' = reconcile_input (mounted_key t) (inputNode t)"
  have key: "map_option node_key n' = mounted_key t" by (simp add: n'_def)
  have foc: "n' \<noteq> None" if "activeElement t = EditInput" "\<not> (inputNode t \<noteq> None \<and> n' \<noteq> inputNode t)"
    using assms that by (auto simp: pre_inv_def)
  from False key foc assms show ?thesis
    unfolding commit_update_def componentDidUpdate_def table_inv_def pre_inv_def
    by (auto simp: Let_def n'_def[symmetric])
qed

lemma row_field_editable:
  "row_field env t e = Inr f \<Longrightarrow> is_editable f = canEdit_row t e"
  by (auto simp: row_field_def row_props_def dest: TextInputEditable_is_editable)

lemma table_inv_pre_inv: "table_inv t \<Longrightarrow> \<not> unmounted t \<Longrightarrow> pre_inv t"
  by (simp add: table_inv_def pre_inv_def)

lemma react_update_inv: "post_ok t \<Longrightarrow> table_inv (react_update env t)"
  by (simp add: post_ok_def react_update_def commit_update_inv split: if_splits)

lemma setState_post_ok:
  "post_ok (setState f t) \<longleftrightarrow>
     (activeElement t = EditInput \<longrightarrow> inputNode t \<noteq> None)
     \<and> (\<not> editMode (f (state t)) \<longrightarrow> f (state t) = empty_state)"
  by (simp add: post_ok_def setState_def pre_inv_def)

lemma table_inv_frame [simp]:
  "table_inv (t\<lparr>dispatched := as\<rparr>) = table_inv t"
  "table_inv (t\<lparr>timers := k\<rparr>) = table_inv t"
  by (simp_all add: table_inv_def)

lemma table_inv_dispatch [simp]: "table_inv (dispatch a t) = table_inv t"
  by (simp add: dispatch_def)

lemma table_inv_map_node:
  "(\<And>n. node_key (g n) = node_key n) \<Longrightarrow>
   table_inv (t\<lparr>inputNode := map_option g (inputNode t)\<rparr>) = table_inv t"
  by (cases "inputNode t") (simp_all add: table_inv_def)

lemma startEditing_post_ok: "pre_inv t \<Longrightarrow> post_ok (startEditing e t)"
  by (simp add: startEditing_def setState_post_ok pre_inv_def)

lemma onChange_post_ok: "pre_inv t \<Longrightarrow> editMode (state t) \<Longrightarrow> post_ok (onChange v t)"
  by (simp add: onChange_def setState_post_ok pre_inv_def)

lemma clearEdit_post_ok: "pre_inv t \<Longrightarrow> post_ok (clearEdit t)"
  by (simp add: clearEdit_def setState_post_ok pre_inv_def)

lemma commitEdit_post_ok:
  assumes inv: "table_inv t" and um: "\<not> unmounted t"
  shows "post_ok (commitEdit env t)"
proof -
  have pre: "pre_inv t" using inv um by (rule table_inv_pre_inv)
  have nd: "\<not> dirty t" using inv by (simp add: table_inv_def)
  show ?thesis
  proof (cases "\<not> editMode (state t) \<or> \<not> editInput t \<or> \<not> js_truthy (state_id (state t))")
    case True
    then have "commitEdit env t = t" by (auto simp: commitEdit_def validateEdit_def)
    with inv nd show ?thesis by (simp add: post_ok_def)
  next
    case False
    define r where "r = js_trim (validateExpressionDomain env (js_trim (expressionInput (state t))))"
    define t1 where "t1 = t\<lparr>inputNode := map_option (\<lambda>n. n\<lparr>customValidity := [], wasValidated := False\<rparr>) (inputNode t)\<rparr>"
    show ?thesis
    proof (cases "r = []")
      case False': False
      then have "commitEdit env t =
          setState (\<lambda>st. st\<lparr>invalid := r\<rparr>)
            (t\<lparr>inputNode := map_option (\<lambda>n. n\<lparr>customValidity := r, wasValidated := True\<rparr>) (inputNode t)\<rparr>)"
        using False by (simp add: commitEdit_def validateEdit_def setInvalid_def r_def Let_def)
      with pre False show ?thesis by (simp add: setState_post_ok pre_inv_def)
    next
      case True
      have t1: "table_inv t1" using inv by (simp add: t1_def table_inv_map_node)
      have "commitEdit env t =
          (case List.find (\<lambda>e. expression_id e = state_id (state t1)) (expressions t1) of
             Some original \<Rightarrow> dispatch (UPDATE_EXPRESSION
                (original\<lparr>expression := expressionInput (state t1), storeId := props_storeId t1\<rparr>)) t1
           | None \<Rightarrow> t1)\<lparr>timers := Suc (timers t)\<rparr>"
        using False True
        by (simp add: commitEdit_def validateEdit_def r_def t1_def Let_def dispatch_def split: option.splits)
      moreover have "\<not> dirty t1" using nd by (simp add: t1_def)
      ultimately show ?thesis using t1 by (simp add: post_ok_def dispatch_def table_inv_def split: option.splits)
    qed
  qed
qed

lemma row_input_post_ok:
  assumes inv: "table_inv t" and um: "\<not> unmounted t"
  shows "post_ok (handle_event env (RowInput e i) t)"
proof (cases "row_field env t e")
  case (Inl err)
  with inv show ?thesis by (simp add: post_ok_def table_inv_def)
next
  case (Inr f)
  have pre: "pre_inv t" using inv um by (rule table_inv_pre_inv)
  from length_le_Suc0_cases [OF field_dispatch_length [of f i]]
  show ?thesis
  proof
    assume "field_dispatch f i = []"
    with Inr inv show ?thesis by (simp add: post_ok_def table_inv_def)
  next
    assume "\<exists>g. field_dispatch f i = [g]"
    then obtain g where g: "field_dispatch f i = [g]" by blast
    show ?thesis
    proof (cases g)
      case (OnChange v)
      with g field_dispatch_start [of g f i] have "is_editable f" by simp
      with Inr have "editMode (state t)" by (simp add: row_field_editable canEdit_row_def)
      with Inr g OnChange pre show ?thesis by (simp add: onChange_post_ok)
    next
      case OnEditClear
      with Inr g pre show ?thesis by (simp add: clearEdit_post_ok)
    next
      case OnEditSave
      with Inr g inv um show ?thesis by (simp add: commitEdit_post_ok)
    next
      case OnEditStart
      with Inr g pre show ?thesis by (simp add: startEditing_post_ok)
    qed
  qed
qed

lemma handle_event_post_ok:
  assumes inv: "table_inv t" and en: "enabled t ev"
  shows "post_ok (handle_event env ev t)"
proof (cases ev)
  case (RowInput e i)
  with en have "\<not> unmounted t" by simp
  with row_input_post_ok [OF inv] show ?thesis unfolding RowInput by blast
next
  case (ClickRemove e)
  with inv show ?thesis by (simp add: post_ok_def onRemoveExpression_def table_inv_def dispatch_def)
next
  case (ClickToggle e)
  with inv show ?thesis by (simp add: post_ok_def onToggleListType_def table_inv_def dispatch_def)
next
  case TimerFires
  with inv en have "pre_inv (t\<lparr>timers := timers t - 1\<rparr>)" by (simp add: table_inv_def pre_inv_def)
  with TimerFires show ?thesis by (simp add: clearEdit_post_ok)
next
  case (NewProps es)
  with inv en show ?thesis by (simp add: post_ok_def table_inv_def pre_inv_def)
next
  case (MoveFocus f)
  with inv en show ?thesis by (auto simp: post_ok_def table_inv_def)
qed

lemma table_step_inv: "table_inv t \<Longrightarrow> enabled t ev \<Longrightarrow> table_inv (table_step env ev t)"
  by (simp add: table_step_def react_update_inv handle_event_post_ok)

lemma mount_inv: "f \<noteq> EditInput \<Longrightarrow> table_inv (mount env es sid title f)"
  by (simp add: mount_def table_inv_def Let_def mounted_key_def editing_rows_def canEdit_row_fun empty_state_def)

lemma reach_inv: "reach env t \<Longrightarrow> table_inv t"
proof (induction rule: reach.induct)
  case (reach_mount f es sid title)
  then show ?case by (rule mount_inv)
next
  case (reach_step t ev)
  then show ?case by (blast intro: table_step_inv)
qed

lemma render_view_part:
  "view_part t' = view_part t \<Longrightarrow> render env t' = render env t"
proof -
  assume "view_part t' = view_part t"
  then have e: "expressions t' = expressions t" and s: "state t' = state t"
    and h: "expressionColumnTitle t' = expressionColumnTitle t" by (simp_all add: view_part_def)
  have "render_row env t' = render_row env t"
    by (rule ext) (simp add: render_row_def row_props_def canEdit_row_def s)
  with e h show ?thesis by (simp add: render_def)
qed

lemma commit_update_view_part: "view_part (commit_update env t) = view_part t"
  by (simp add: commit_update_def componentDidUpdate_def view_part_def Let_def)

lemma commit_update_unmounted:
  "unmounted (commit_update env t) \<longleftrightarrow> unmounted t \<or> isl (render env t)"
  by (simp add: commit_update_def componentDidUpdate_def Let_def)

lemma setState_dirty [simp]: "dirty (setState f t)"
  by (simp add: setState_def)

lemma commitEdit_dirty_or_same:
  "dirty (commitEdit env t) \<or> view_part (commitEdit env t) = view_part t"
  by (auto simp: commitEdit_def validateEdit_def setInvalid_def dispatch_def view_part_def Let_def
           split: option.splits)

lemma run_gesture_dirty_or_same:
  "dirty (run_gesture env e g t) \<or> view_part (run_gesture env e g t) = view_part t"
  by (cases g) (auto simp: onChange_def clearEdit_def startEditing_def commitEdit_dirty_or_same)

lemma handle_event_dirty_or_same:
  "dirty (handle_event env ev t) \<or> view_part (handle_event env ev t) = view_part t"
proof (cases ev)
  case (RowInput e i)
  show ?thesis
  proof (cases "row_field env t e")
    case (Inl err) with RowInput show ?thesis by simp
  next
    case (Inr f)
    from length_le_Suc0_cases [OF field_dispatch_length [of f i]]
    show ?thesis
    proof
      assume "field_dispatch f i = []"
      with RowInput Inr show ?thesis by simp
    next
      assume "\<exists>g. field_dispatch f i = [g]"
      then obtain g where "field_dispatch f i = [g]" by blast
      with RowInput Inr run_gesture_dirty_or_same [of env e g t] show ?thesis by simp
    qed
  qed
qed (auto simp: onRemoveExpression_def onToggleListType_def dispatch_def clearEdit_def view_part_def)

lemma reach_render_ok: "reach env t \<Longrightarrow> \<not> unmounted t \<Longrightarrow> \<not> isl (render env t)"
proof (induction rule: reach.induct)
  case (reach_mount f es sid title)
  then show ?case by (simp add: mount_def Let_def)
next
  case (reach_step t ev)
  let ?h = "handle_event env ev t"
  from reach_step.hyps(2) have um: "\<not> unmounted t" by (cases ev) auto
  show ?case
  proof (cases "dirty ?h")
    case True
    then have "table_step env ev t = commit_update env ?h"
      by (simp add: table_step_def react_update_def)
    moreover have "render env (commit_update env ?h) = render env ?h"
      by (rule render_view_part [OF commit_update_view_part])
    ultimately show ?thesis using reach_step.prems by (simp add: commit_update_unmounted)
  next
    case False
    with handle_event_dirty_or_same [of env ev t] have "view_part ?h = view_part t" by simp
    then have r: "render env ?h = render env t" by (rule render_view_part)
    from False have "table_step env ev t = ?h" by (simp add: table_step_def react_update_def)
    with r reach_step.IH um show ?thesis by simp
  qed
qed


lemma render_isl_iff: "isl (render env t) \<longleftrightarrow> (\<exists>e \<in> set (expressions t). isl (row_field env t e))"
  by (auto simp: render_def render_row_def row_field_def sequence_sum_isl_iff isl_map_sum)

lemma commit_update_frame [simp]:
  "state (commit_update env t) = state t"
  "expressions (commit_update env t) = expressions t"
  "dispatched (commit_update env t) = dispatched t"
  "timers (commit_update env t) = timers t"
  by (simp_all add: commit_update_def componentDidUpdate_def Let_def)

lemma reach_row_field_Inr:
  assumes "reach env t" and "\<not> unmounted t" and "e \<in> set (expressions t)"
  obtains f where "row_field env t e = Inr f" and "is_editable f = canEdit_row t e"
proof -
  from reach_render_ok [OF assms(1,2)] assms(3) have "\<not> isl (row_field env t e)"
    by (auto simp: render_isl_iff)
  then obtain f where "row_field env t e = Inr f" by (cases "row_field env t e") auto
  with that show ?thesis by (simp add: row_field_editable)
qed

lemma field_dispatch_editable:
  "is_editable f \<Longrightarrow> field_dispatch f (TypeValue v) = [OnChange v]"
  "\<not> is_editable f \<Longrightarrow> field_dispatch f ClickStart = [OnEditStart]"
  by (cases f; simp)+

lemma start_step:
  assumes "reach env t" "\<not> unmounted t" "e \<in> set (expressions t)" "\<not> canEdit_row t e"
  shows "table_step env (RowInput e ClickStart) t = commit_update env (startEditing e t)"
proof -
  obtain f where "row_field env t e = Inr f" "\<not> is_editable f"
    using reach_row_field_Inr [OF assms(1-3)] assms(4) by metis
  then show ?thesis by (simp add: table_step_def react_update_def field_dispatch_editable startEditing_def)
qed

lemma timer_step_state: "state (table_step env TimerFires t) = empty_state"
  by (simp add: table_step_def react_update_def clearEdit_def setState_def)

lemma timer_step_dispatched: "dispatched (table_step env TimerFires t) = dispatched t"
  by (simp add: table_step_def react_update_def clearEdit_def setState_def)

lemma run_events_append: "run_events env (evs @ evs') t = run_events env evs' (run_events env evs t)"
  by (induction evs arbitrary: t) simp_all

text \<open>
  C21. In a reachable mounted table, typing into the edit field a value that ends in a
  percent sign makes the next render throw URIError, and React unmounts the table.
\<close>

theorem typing_trailing_pct_unmounts:
  assumes "reach env t" and "\<not> unmounted t" and "e \<in> set (expressions t)"
    and "canEdit_row t e" and "s \<noteq> []" and "last s = CHR ''%''"
  shows "unmounted (table_step env (RowInput e (TypeValue s)) t)"
proof -
  obtain f where f: "row_field env t e = Inr f" and ed: "is_editable f"
    using reach_row_field_Inr [OF assms(1-3)] assms(4) by metis
  let ?t1 = "onChange s t"
  have step: "table_step env (RowInput e (TypeValue s)) t = commit_update env ?t1"
    using f ed by (simp add: table_step_def react_update_def field_dispatch_editable onChange_def)
  have "row_field env ?t1 e = Inl URIError"
    using assms(4-6) decodeURIComponent_trailing_pct [OF assms(5,6)]
    by (simp add: row_field_def row_props_def TextInputEditable_def canEdit_row_def onChange_def setState_def)
  then have "isl (row_field env ?t1 e)" by simp
  with assms(3) have "\<exists>e' \<in> set (expressions ?t1). isl (row_field env ?t1 e')"
    by (auto simp: onChange_def setState_def)
  then have "isl (render env ?t1)" by (simp only: render_isl_iff)
  with step show ?thesis by (simp add: commit_update_unmounted)
qed

lemma idle_no_input:
  "table_inv t \<Longrightarrow> \<not> unmounted t \<Longrightarrow> \<not> editMode (state t) \<Longrightarrow> inputNode t = None"
  by (auto simp: table_inv_def mounted_key_def editing_rows_def canEdit_row_fun)

text \<open>
  C22. Starting an edit from the idle table moves the focus to the new edit input even
  when the page's formText field holds it (autoFocus on mount).
\<close>

theorem start_edit_takes_focus:
  assumes "reach env t" and "\<not> unmounted t" and "e \<in> set (expressions t)"
    and "\<not> editMode (state t)" and "activeElement t = FormText"
    and "\<not> unmounted (table_step env (RowInput e ClickStart) t)"
  shows "activeElement (table_step env (RowInput e ClickStart) t) = EditInput"
proof -
  have inv: "table_inv t" using assms(1) by (rule reach_inv)
  let ?t1 = "startEditing e t"
  have step: "table_step env (RowInput e ClickStart) t = commit_update env ?t1"
    using start_step [OF assms(1-3)] assms(4) by (simp add: canEdit_row_def)
  have none: "inputNode ?t1 = None"
    using idle_no_input [OF inv assms(2,4)] by (simp add: startEditing_def setState_def)
  have "e \<in> set (editing_rows ?t1)"
    using assms(3) by (simp add: editing_rows_def canEdit_row_def startEditing_def setState_def)
  then have "mounted_key ?t1 \<noteq> None" by (auto simp: mounted_key_def)
  then obtain k where k: "mounted_key ?t1 = Some k" by blast
  have ok: "\<not> isl (render env ?t1)"
    using assms(6) step by (simp add: commit_update_unmounted)
  show ?thesis
    using step none k ok
    by (simp add: commit_update_def componentDidUpdate_def reconcile_input_def Let_def)
qed

text \<open>
  C24. When a pending teardown fires, the table returns to the empty state whatever
  session is active, consumes one timer and emits nothing.
\<close>

theorem timer_ends_session:
  assumes "table_inv t" and "enabled t TimerFires"
  shows "state (table_step env TimerFires t) = empty_state
         \<and> timers (table_step env TimerFires t) = timers t - 1
         \<and> dispatched (table_step env TimerFires t) = dispatched t"
  by (simp add: table_step_def react_update_def clearEdit_def setState_def)

text \<open>
  C27. In every reachable state, the remove button emits exactly one remove command
  for its row and changes nothing else.
\<close>

theorem remove_step:
  assumes "reach env t"
  shows "table_step env (ClickRemove e) t = t\<lparr>dispatched := dispatched t @ [REMOVE_EXPRESSION e]\<rparr>"
proof -
  have "\<not> dirty t" using reach_inv [OF assms] by (simp add: table_inv_def)
  then show ?thesis
    by (simp add: table_step_def react_update_def onRemoveExpression_def dispatch_def)
qed

text \<open>
  C23. While a session is open on a row of the new collection, every re-render caused
  by new props moves the focus to the edit input from any element but the formText
  field: componentDidUpdate calls focus() after each update of the table, not once
  after the edit input mounts.
\<close>

theorem rerender_refocuses:
  assumes "e \<in> set es" and "canEdit_row t e" and "activeElement t \<noteq> FormText"
    and "\<not> isl (render env (t\<lparr>expressions := es, dirty := True\<rparr>))"
  shows "activeElement (table_step env (NewProps es) t) = EditInput"
proof -
  have "mounted_key (t\<lparr>expressions := es\<rparr>) \<noteq> None"
    using assms(1,2) by (auto simp: mounted_key_def editing_rows_def canEdit_row_def filter_empty_conv)
  moreover have "editMode (state t)" using assms(2) by (simp add: canEdit_row_def)
  ultimately show ?thesis using assms(3,4)
    by (auto simp: table_step_def react_update_def commit_update_def componentDidUpdate_def Let_def)
qed

lemma demo_reach_mounted: "f \<noteq> EditInput \<Longrightarrow> reach demo_env (demo_mounted f)"
  unfolding demo_mounted_def by (rule reach_mount)

lemma demo_mounted_eq: "demo_mounted f = demo_idle\<lparr>activeElement := f\<rparr>"
  by (simp add: demo_mounted_def demo_idle_def demo_editing_def mount_def render_def render_row_def
      row_props_def TextInputEditable_def decodeURIComponent_def canEdit_row_def demo_expression_def
      empty_state_def)

lemma demo_start:
  "table_step demo_env (RowInput demo_expression ClickStart) (demo_mounted f) = demo_editing ''example.com'' []"
  by (simp add: demo_mounted_eq demo_idle_def demo_editing_def demo_expression_def empty_state_def
      startEditing_def Let_def table_simps)

lemma demo_reach_started: "reach demo_env (demo_editing ''example.com'' [])"
proof -
  have "reach demo_env (table_step demo_env (RowInput demo_expression ClickStart) (demo_mounted OtherElement))"
    by (rule reach_step [OF demo_reach_mounted])
       (simp_all add: demo_mounted_eq demo_idle_def demo_editing_def)
  then show ?thesis by (simp add: demo_start)
qed

text \<open>
  C1. In every reachable state of the table (mount, then any sequence of enabled
  events) no state update is left pending, the ref holds exactly the mounted edit
  input, that input belongs to the last row being edited, focus is on it only while it
  is mounted, outside an edit session the state is the empty one, and a mounted table
  renders without throwing.
\<close>

theorem reach_invariant:
  "reach env t \<Longrightarrow> table_inv t \<and> (\<not> unmounted t \<longrightarrow> \<not> isl (render env t))"
  using reach_inv reach_render_ok by blast

theorem reach_invariant_witness:
  "reach demo_env (demo_editing ''example.com'' []) \<and> table_inv (demo_editing ''example.com'' [])
   \<and> \<not> unmounted (demo_editing ''example.com'' [])
   \<and> \<not> isl (render demo_env (demo_editing ''example.com'' []))"
proof -
  have u: "\<not> unmounted (demo_editing ''example.com'' [])" by (simp add: demo_editing_def)
  show ?thesis using demo_reach_started u reach_invariant [OF demo_reach_started] by simp
qed

theorem typing_trailing_pct_unmounts_witness:
  "reach demo_env (demo_editing ''example.com'' []) \<and> \<not> unmounted (demo_editing ''example.com'' [])
   \<and> demo_expression \<in> set (expressions (demo_editing ''example.com'' []))
   \<and> canEdit_row (demo_editing ''example.com'' []) demo_expression
   \<and> ''100%'' \<noteq> [] \<and> last ''100%'' = CHR ''%''
   \<and> unmounted (table_step demo_env (RowInput demo_expression (TypeValue ''100%'')) (demo_editing ''example.com'' []))"
proof -
  have h: "\<not> unmounted (demo_editing ''example.com'' [])"
    "demo_expression \<in> set (expressions (demo_editing ''example.com'' []))"
    "canEdit_row (demo_editing ''example.com'' []) demo_expression"
    "''100%'' \<noteq> []" "last ''100%'' = CHR ''%''"
    by (simp_all add: demo_editing_def canEdit_row_def demo_expression_def)
  show ?thesis using demo_reach_started h typing_trailing_pct_unmounts [OF demo_reach_started h] by simp
qed

theorem start_edit_takes_focus_witness:
  "reach demo_env (demo_mounted FormText) \<and> \<not> unmounted (demo_mounted FormText)
   \<and> demo_expression \<in> set (expressions (demo_mounted FormText))
   \<and> \<not> editMode (state (demo_mounted FormText)) \<and> activeElement (demo_mounted FormText) = FormText
   \<and> \<not> unmounted (table_step demo_env (RowInput demo_expression ClickStart) (demo_mounted FormText))
   \<and> activeElement (table_step demo_env (RowInput demo_expression ClickStart) (demo_mounted FormText)) = EditInput"
proof -
  have r: "reach demo_env (demo_mounted FormText)" by (rule demo_reach_mounted) simp
  have h: "\<not> unmounted (demo_mounted FormText)"
    "demo_expression \<in> set (expressions (demo_mounted FormText))"
    "\<not> editMode (state (demo_mounted FormText))" "activeElement (demo_mounted FormText) = FormText"
    by (simp_all add: demo_mounted_eq demo_idle_def demo_editing_def empty_state_def)
  have h': "\<not> unmounted (table_step demo_env (RowInput demo_expression ClickStart) (demo_mounted FormText))"
    by (simp only: demo_start) (simp add: demo_editing_def)
  show ?thesis using r h h' start_edit_takes_focus [OF r h h'] by simp
qed

theorem timer_ends_session_witness:
  "table_inv ((demo_editing ''example.org'' [])\<lparr>timers := 1\<rparr>)
   \<and> enabled ((demo_editing ''example.org'' [])\<lparr>timers := 1\<rparr>) TimerFires
   \<and> state (table_step demo_env TimerFires ((demo_editing ''example.org'' [])\<lparr>timers := 1\<rparr>)) = empty_state
   \<and> timers (table_step demo_env TimerFires ((demo_editing ''example.org'' [])\<lparr>timers := 1\<rparr>)) = 0"
proof -
  have h: "table_inv ((demo_editing ''example.org'' [])\<lparr>timers := 1\<rparr>)"
    "enabled ((demo_editing ''example.org'' [])\<lparr>timers := 1\<rparr>) TimerFires"
    by (simp_all add: table_inv_def demo_editing_def mounted_key_def editing_rows_def canEdit_row_def
        demo_expression_def row_key_def fresh_input_def)
  show ?thesis using h timer_ends_session [OF h, of demo_env] by simp
qed

theorem remove_step_witness:
  "reach demo_env (demo_mounted OtherElement)
   \<and> table_step demo_env (ClickRemove demo_expression) (demo_mounted OtherElement)
       = (demo_mounted OtherElement)\<lparr>dispatched := [REMOVE_EXPRESSION demo_expression]\<rparr>"
proof -
  have r: "reach demo_env (demo_mounted OtherElement)" by (rule demo_reach_mounted) simp
  show ?thesis using r remove_step [OF r, of demo_expression]
    by (simp add: demo_mounted_eq demo_idle_def demo_editing_def)
qed

theorem rerender_refocuses_witness:
  "demo_expression \<in> set [demo_expression]
   \<and> canEdit_row ((demo_editing ''example.org'' [])\<lparr>activeElement := OtherElement\<rparr>) demo_expression
   \<and> \<not> isl (render demo_env ((demo_editing ''example.org'' [])\<lparr>activeElement := OtherElement,
                                  expressions := [demo_expression], dirty := True\<rparr>))
   \<and> activeElement (table_step demo_env (NewProps [demo_expression])
        ((demo_editing ''example.org'' [])\<lparr>activeElement := OtherElement\<rparr>)) = EditInput"
proof -
  let ?t = "(demo_editing ''example.org'' [])\<lparr>activeElement := OtherElement\<rparr>"
  have ce: "canEdit_row ?t demo_expression" by (simp add: canEdit_row_def demo_editing_def demo_expression_def)
  have "render demo_env (?t\<lparr>expressions := [demo_expression], dirty := True\<rparr>) =
          render demo_env (demo_editing ''example.org'' [])"
    by (rule render_view_part) (simp add: view_part_def demo_editing_def)
  then have ok: "\<not> isl (render demo_env (?t\<lparr>expressions := [demo_expression], dirty := True\<rparr>))"
    by (simp add: demo_render)
  from rerender_refocuses [of demo_expression "[demo_expression]" ?t demo_env] ce ok
  show ?thesis by simp
qed

end
