(* ===== verification/Closed_Loop.thy ===== *)
theory Closed_Loop
  imports Session_Spec Table_Runtime
begin

text \<open>
  The table composed with the store that feeds it. ExpressionTable.tsx is connected
  to the redux store by \<open>mapDispatchToProps\<close> (lines 246--254): the callbacks
  \<open>onUpdateExpression\<close> and \<open>onRemoveExpression\<close> dispatch the actions, and the
  parent passes the store's collection back as the \<open>expressions\<close> prop. The closed
  loop \<open>system\<close> pairs the store's collection with the table. \<open>sys_step\<close> runs one
  event of the user or of a timer on the table, lets the store's reducer apply the
  commands the event dispatched, in order, and delivers the new collection to the
  table as new props when there were any and the table is still mounted. Only the
  store produces new props here, so \<open>NewProps\<close> is not an event of the loop.
  The initial store is well-formed (\<open>store_wf\<close>): distinct ids, each a non-empty
  string, and every record in the table's store.

  The lemmas show that the loop keeps the store well-formed and the table showing it
  (\<open>sys_inv\<close>). They also show that every command a step dispatches belongs to the
  table's store, and that a valid save reaches the store. The refinement states that the specification's operations, chosen per event by
  \<open>event_ops\<close> and run by \<open>spec_trace\<close>, compute the session the loop ends in,
  error text aside (\<open>Session_Spec.forget_error\<close>).
\<close>

record 'a system =
  store :: "'a expression_scheme list"
  ui :: "'a table"

definition store_wf :: "js_string \<Rightarrow> 'a expression_scheme list \<Rightarrow> bool" where
  "store_wf sid es =
     (distinct (map expression_id es) \<and> (\<forall>e \<in> set es. js_truthy (expression_id e) \<and> storeId e = sid))"

text \<open>The commands a step of the table dispatched: the new suffix of its log.\<close>

definition new_actions :: "'a table \<Rightarrow> 'a table \<Rightarrow> 'a store_action list" where
  "new_actions t t' = drop (length (dispatched t)) (dispatched t')"

definition sys_step :: "'a env \<Rightarrow> 'a table_event \<Rightarrow> 'a system \<Rightarrow> 'a system" where
  "sys_step env ev s =
     (let t' = table_step env ev (ui s);
          acts = new_actions (ui s) t'
      in if acts = [] then s\<lparr>ui := t'\<rparr>
         else let es' = apply_actions acts (store s)
              in \<lparr>store = es', ui = (if unmounted t' then t' else table_step env (NewProps es') t')\<rparr>)"

fun user_event :: "'a table_event \<Rightarrow> bool" where
  "user_event (NewProps _) = False"
| "user_event _ = True"

definition sys_enabled :: "'a system \<Rightarrow> 'a table_event \<Rightarrow> bool" where
  "sys_enabled s ev = (user_event ev \<and> enabled (ui s) ev)"

inductive sys_reach :: "'a env \<Rightarrow> 'a system \<Rightarrow> bool" for env where
  sys_mount: "store_wf sid es \<Longrightarrow> f \<noteq> EditInput \<Longrightarrow>
              sys_reach env \<lparr>store = es, ui = mount env es sid title f\<rparr>"
| sys_next: "sys_reach env s \<Longrightarrow> sys_enabled s ev \<Longrightarrow> sys_reach env (sys_step env ev s)"

fun sys_run :: "'a env \<Rightarrow> 'a table_event list \<Rightarrow> 'a system \<Rightarrow> 'a system" where
  "sys_run env [] s = s"
| "sys_run env (ev # evs) s = sys_run env evs (sys_step env ev s)"

fun sys_enabled_run :: "'a env \<Rightarrow> 'a table_event list \<Rightarrow> 'a system \<Rightarrow> bool" where
  "sys_enabled_run env [] s = True"
| "sys_enabled_run env (ev # evs) s = (sys_enabled s ev \<and> sys_enabled_run env evs (sys_step env ev s))"

text \<open>
  The specification's operations an event performs: the operation of the callback a
  row's field invokes, the remove and toggle commands, the teardown.
\<close>

fun event_ops :: "'a env \<Rightarrow> 'a table \<Rightarrow> 'a table_event \<Rightarrow> 'a session_op list" where
  "event_ops env t (RowInput e i) =
     (case row_field env t e of Inl _ \<Rightarrow> [] | Inr f \<Rightarrow> map (gesture_op e) (field_dispatch f i))"
| "event_ops env t (ClickRemove e) = [RemoveRecord e]"
| "event_ops env t (ClickToggle e) = [ToggleListType e]"
| "event_ops env t TimerFires = [Teardown]"
| "event_ops env t (NewProps es) = []"
| "event_ops env t (MoveFocus f) = []"

text \<open>
  The specification run alongside the loop: each event's operations, applied to the
  abstract session with the store's collection of that moment.
\<close>

fun spec_trace :: "'a env \<Rightarrow> 'a table_event list \<Rightarrow> 'a system \<Rightarrow> 'a session \<Rightarrow> 'a session" where
  "spec_trace env [] s a = a"
| "spec_trace env (ev # evs) s a =
     spec_trace env evs (sys_step env ev s)
       (fold (spec_step (\<lambda>x. js_trim (validateExpressionDomain env x)) (store s)) (event_ops env (ui s) ev) a)"

text \<open>The invariant of the loop.\<close>

definition sys_inv :: "'a env \<Rightarrow> 'a system \<Rightarrow> bool" where
  "sys_inv env s =
     (reach env (ui s) \<and> store_wf (props_storeId (ui s)) (store s)
      \<and> store_wf (props_storeId (ui s)) (expressions (ui s))
      \<and> (\<not> unmounted (ui s) \<longrightarrow> expressions (ui s) = store s))"

fun action_in_store :: "js_string \<Rightarrow> 'a store_action \<Rightarrow> bool" where
  "action_in_store sid (UPDATE_EXPRESSION e) = (storeId e = sid)"
| "action_in_store sid (REMOVE_EXPRESSION e) = True"

text \<open>The props the parent passes: the collection and the store id.\<close>

definition props_of :: "'a table \<Rightarrow> 'a expression_scheme list \<times> js_string" where
  "props_of t = (expressions t, props_storeId t)"

text \<open>A step that only appends commands of the store \<open>sid\<close> to the log.\<close>

definition appends_in_store :: "js_string \<Rightarrow> 'a table \<Rightarrow> 'a table \<Rightarrow> bool" where
  "appends_in_store sid t t' =
     (\<exists>acts. dispatched t' = dispatched t @ acts \<and> list_all (action_in_store sid) acts)"

text \<open>The sample store and table of \<open>ExpressionTable\<close>, after the first render.\<close>

definition demo_system :: "unit system" where
  "demo_system = \<lparr>store = [demo_expression], ui = demo_mounted OtherElement\<rparr>"

section \<open>Frame lemmas\<close>

lemma props_of_commit_update [simp]: "props_of (commit_update env t) = props_of t"
  by (simp add: props_of_def commit_update_def componentDidUpdate_def Let_def)

lemma props_of_commitEdit [simp]: "props_of (commitEdit env t) = props_of t"
  by (auto simp: props_of_def commitEdit_def validateEdit_def setInvalid_def setState_def dispatch_def
      Let_def split: option.splits)

lemma props_of_run_gesture [simp]: "props_of (run_gesture env e g t) = props_of t"
  by (cases g) (simp_all, simp_all add: props_of_def onChange_def clearEdit_def startEditing_def setState_def)

lemma props_of_fold_gestures [simp]: "props_of (fold (run_gesture env e) gs t) = props_of t"
  by (induction gs arbitrary: t) simp_all

lemma props_of_table_step:
  "user_event ev \<Longrightarrow> props_of (table_step env ev t) = props_of t"
  by (cases ev) (auto simp: table_step_def react_update_def onRemoveExpression_def
      onToggleListType_def dispatch_def clearEdit_def setState_def split: sum.splits,
      simp_all add: props_of_def)

lemma props_of_NewProps [simp]:
  "props_of (table_step env (NewProps es) t) = (es, props_storeId t)"
  by (simp add: table_step_def react_update_def, simp add: props_of_def)

section \<open>The commands of a step\<close>

lemma appends_in_store_same: "dispatched t' = dispatched t \<Longrightarrow> appends_in_store sid t t'"
  by (simp add: appends_in_store_def)

lemma appends_in_store_trans:
  "appends_in_store sid t1 t2 \<Longrightarrow> appends_in_store sid t2 t3 \<Longrightarrow> appends_in_store sid t1 t3"
  unfolding appends_in_store_def by (metis append.assoc list_all_append)

lemma commitEdit_appends: "appends_in_store (props_storeId t) t (commitEdit env t)"
  by (auto simp: appends_in_store_def commitEdit_def validateEdit_def setInvalid_def setState_def
      dispatch_def Let_def split: option.splits)

lemma run_gesture_appends: "appends_in_store (props_storeId t) t (run_gesture env e g t)"
  by (cases g) (simp_all add: commitEdit_appends appends_in_store_same onChange_def clearEdit_def
      startEditing_def setState_def)

lemma fold_gestures_appends: "appends_in_store (props_storeId t) t (fold (run_gesture env e) gs t)"
proof (induction gs arbitrary: t)
  case Nil
  then show ?case by (simp add: appends_in_store_same)
next
  case (Cons g gs)
  have "props_storeId (run_gesture env e g t) = props_storeId t"
    using props_of_run_gesture [of env e g t] by (simp add: props_of_def)
  with run_gesture_appends [of t env e g] Cons.IH [of "run_gesture env e g t"] show ?case
    by (simp add: appends_in_store_trans)
qed

lemma table_step_appends:
  assumes "\<forall>e \<in> set (expressions t). storeId e = props_storeId t" and "enabled t ev"
  shows "appends_in_store (props_storeId t) t (table_step env ev t)"
proof -
  have "appends_in_store (props_storeId t) t (handle_event env ev t)"
  proof (cases ev)
    case (RowInput e i)
    then show ?thesis
      by (cases "row_field env t e") (simp_all add: appends_in_store_same fold_gestures_appends)
  next
    case (ClickToggle e)
    with assms show ?thesis
      by (simp add: appends_in_store_def onToggleListType_def dispatch_def)
  qed (simp_all add: appends_in_store_def onRemoveExpression_def dispatch_def clearEdit_def setState_def)
  then show ?thesis
    by (simp add: appends_in_store_def table_step_def react_update_def)
qed

lemma new_actions_appended:
  "appends_in_store sid t t' \<Longrightarrow> dispatched t' = dispatched t @ new_actions t t'
     \<and> list_all (action_in_store sid) (new_actions t t')"
  by (auto simp: appends_in_store_def new_actions_def)

section \<open>The store\<close>

lemma apply_action_store_wf:
  assumes wf: "store_wf sid es" and ok: "action_in_store sid a"
  shows "store_wf sid (apply_action a es)"
proof (cases a)
  case (UPDATE_EXPRESSION e)
  have ids: "map expression_id (apply_action a es) = map expression_id es"
    unfolding UPDATE_EXPRESSION by (rule apply_update_ids)
  have "\<forall>x \<in> set (apply_action a es). js_truthy (expression_id x) \<and> storeId x = sid"
    using wf ok UPDATE_EXPRESSION by (auto simp: store_wf_def)
  with wf ids show ?thesis by (simp add: store_wf_def)
next
  case (REMOVE_EXPRESSION e)
  with wf show ?thesis by (simp add: store_wf_def distinct_map_filter)
qed

lemma apply_actions_store_wf:
  "store_wf sid es \<Longrightarrow> list_all (action_in_store sid) acts \<Longrightarrow> store_wf sid (apply_actions acts es)"
  by (induction acts arbitrary: es) (simp_all add: apply_action_store_wf)

section \<open>The invariant of the loop\<close>

lemma enabled_mounted: "enabled t ev \<Longrightarrow> \<not> unmounted t"
  by (cases ev) simp_all

lemma sys_inv_mount:
  "store_wf sid es \<Longrightarrow> f \<noteq> EditInput \<Longrightarrow> sys_inv env \<lparr>store = es, ui = mount env es sid title f\<rparr>"
  by (simp add: sys_inv_def reach_mount) (simp add: mount_def Let_def)

lemma sys_inv_step:
  assumes inv: "sys_inv env s" and en: "sys_enabled s ev"
  shows "sys_inv env (sys_step env ev s)"
proof -
  define t where "t = ui s"
  define t' where "t' = table_step env ev t"
  define sid where "sid = props_storeId t"
  from en have ue: "user_event ev" and et: "enabled t ev" by (simp_all add: sys_enabled_def t_def)
  from inv have rt: "reach env t" and ws: "store_wf sid (store s)" and we: "store_wf sid (expressions t)"
    and eq: "expressions t = store s"
    using enabled_mounted [OF et] by (simp_all add: sys_inv_def t_def sid_def)
  have rt': "reach env t'" unfolding t'_def by (rule reach_step [OF rt et])
  from props_of_table_step [OF ue, of env t]
  have ex': "expressions t' = expressions t" and sid': "props_storeId t' = sid"
    by (simp_all add: props_of_def t'_def sid_def)
  from we have "\<forall>e \<in> set (expressions t). storeId e = props_storeId t" by (simp add: store_wf_def sid_def)
  from new_actions_appended [OF table_step_appends [OF this et]]
  have ok: "list_all (action_in_store sid) (new_actions t t')" by (simp add: t'_def sid_def)
  show ?thesis
  proof (cases "new_actions t t' = []")
    case True
    with rt' ws we eq ex' sid' show ?thesis
      by (simp add: sys_step_def sys_inv_def t_def [symmetric] t'_def [symmetric])
  next
    case False
    define es' where "es' = apply_actions (new_actions t t') (store s)"
    have ws': "store_wf sid es'" unfolding es'_def by (rule apply_actions_store_wf [OF ws ok])
    have step: "sys_step env ev s =
                  \<lparr>store = es', ui = (if unmounted t' then t' else table_step env (NewProps es') t')\<rparr>"
      using False by (simp add: sys_step_def t_def [symmetric] t'_def [symmetric] es'_def Let_def)
    show ?thesis
    proof (cases "unmounted t'")
      case True
      with step rt' ws' we ex' sid' show ?thesis by (simp add: sys_inv_def)
    next
      case False
      have "reach env (table_step env (NewProps es') t')" using False by (simp add: reach_step [OF rt'])
      moreover have "props_of (table_step env (NewProps es') t') = (es', sid)" by (simp add: sid')
      ultimately show ?thesis using step False ws' by (simp add: sys_inv_def props_of_def)
    qed
  qed
qed

lemma sys_reach_inv: "sys_reach env s \<Longrightarrow> sys_inv env s"
  by (induction rule: sys_reach.induct) (simp_all add: sys_inv_mount sys_inv_step)

section \<open>Refinement of the session specification\<close>

lemma commands_abs_session [simp]: "commands (abs_session t) = dispatched t"
  by (simp add: abs_session_def)

lemma commands_forget_error [simp]: "commands (forget_error a) = commands a"
  by (simp add: forget_error_def)

lemma abs_session_table_step:
  "abs_session (table_step env ev t) = abs_session (handle_event env ev t)"
  by (simp add: abs_session_def table_step_def react_update_def)

lemma abs_session_NewProps: "abs_session (table_step env (NewProps es) t) = abs_session t"
  by (simp add: abs_session_table_step, simp add: abs_session_def)

lemma abs_session_sys_step:
  "abs_session (ui (sys_step env ev s)) = abs_session (handle_event env ev (ui s))"
proof -
  have "abs_session (ui (sys_step env ev s)) = abs_session (table_step env ev (ui s))"
    by (simp add: sys_step_def Let_def abs_session_NewProps)
  then show ?thesis by (simp only: abs_session_table_step)
qed

lemma run_gesture_impl_op: "run_gesture env e g t = impl_op env (gesture_op e g) t"
  by (cases g) simp_all

text \<open>A save reaches \<open>commitEdit\<close> only from the row being edited, whose input is mounted.\<close>

lemma save_ready:
  assumes "reach env t" and "\<not> unmounted t" and "e \<in> set (expressions t)" and "canEdit_row t e"
    and "js_truthy (expression_id e)"
  shows "session_ready t"
proof -
  from reach_inv [OF assms(1)] assms(2)
  have "editInput t \<longleftrightarrow> inputNode t \<noteq> None" and key: "map_option node_key (inputNode t) = mounted_key t"
    by (simp_all add: table_inv_def)
  moreover have "mounted_key t \<noteq> None"
    using assms(3,4) by (auto simp: mounted_key_def editing_rows_def filter_empty_conv)
  ultimately have "editInput t" by auto
  with assms(4,5) show ?thesis by (simp add: session_ready_def canEdit_row_def)
qed

lemma forget_error_idem [simp]: "forget_error (forget_error a) = forget_error a"
  by (simp add: forget_error_def)

lemma forget_error_spec_step:
  "forget_error (spec_step V es op (forget_error a)) = forget_error (spec_step V es op a)"
  by (cases op) (simp_all add: forget_error_def Let_def split: option.splits)

lemma forget_error_fold_spec:
  "forget_error (fold (spec_step V es) ops (forget_error a)) = forget_error (fold (spec_step V es) ops a)"
proof (induction ops arbitrary: a)
  case (Cons op ops)
  have "forget_error (fold (spec_step V es) ops (spec_step V es op (forget_error a)))
          = forget_error (fold (spec_step V es) ops (forget_error (spec_step V es op (forget_error a))))"
    by (simp only: Cons.IH)
  also have "\<dots> = forget_error (fold (spec_step V es) ops (spec_step V es op a))"
    by (simp only: forget_error_spec_step Cons.IH)
  finally show ?case by simp
qed simp

lemma forget_error_spec_trace:
  "forget_error (spec_trace env evs s (forget_error a)) = forget_error (spec_trace env evs s a)"
proof (induction evs arbitrary: s a)
  case (Cons ev evs)
  let ?f = "fold (spec_step (\<lambda>x. js_trim (validateExpressionDomain env x)) (store s)) (event_ops env (ui s) ev)"
  have "forget_error (spec_trace env evs (sys_step env ev s) (?f (forget_error a)))
          = forget_error (spec_trace env evs (sys_step env ev s) (forget_error (?f (forget_error a))))"
    by (simp only: Cons.IH)
  also have "\<dots> = forget_error (spec_trace env evs (sys_step env ev s) (?f a))"
    by (simp only: forget_error_fold_spec Cons.IH)
  finally show ?case by simp
qed simp

text \<open>A user input on a row performs the operation of the callback it invokes.\<close>

lemma row_input_refines:
  assumes rt: "reach env t" and um: "\<not> unmounted t" and e: "e \<in> set (expressions t)"
    and we: "store_wf (props_storeId t) (expressions t)"
  shows "forget_error (abs_session (handle_event env (RowInput e i) t)) =
           forget_error (fold (spec_step (\<lambda>x. js_trim (validateExpressionDomain env x)) (expressions t))
                           (event_ops env t (RowInput e i)) (abs_session t))"
proof -
  from we have sid: "\<forall>e \<in> set (expressions t). storeId e = props_storeId t" by (simp add: store_wf_def)
  obtain f where rf: "row_field env t e = Inr f" and ed: "is_editable f = canEdit_row t e"
    using reach_row_field_Inr [OF rt um e] by blast
  from length_le_Suc0_cases [OF field_dispatch_length [of f i]]
  show ?thesis
  proof
    assume "field_dispatch f i = []"
    with rf show ?thesis by simp
  next
    assume "\<exists>g. field_dispatch f i = [g]"
    then obtain g where g: "field_dispatch f i = [g]" by blast
    have "gesture_op e g = Validate \<or> gesture_op e g = CommitEdit \<longrightarrow> session_ready t"
    proof
      assume "gesture_op e g = Validate \<or> gesture_op e g = CommitEdit"
      then have "g = OnEditSave" by (cases g) simp_all
      with g field_dispatch_start [of g f i] ed have "canEdit_row t e" by simp
      moreover have "js_truthy (expression_id e)" using we e by (simp add: store_wf_def)
      ultimately show "session_ready t" by (rule save_ready [OF rt um e])
    qed
    from impl_op_forget_error [OF this sid, of env]
    show ?thesis using rf g by (simp add: run_gesture_impl_op)
  qed
qed

text \<open>One step of the loop performs the specification's operations of its event.\<close>

lemma sys_step_refines:
  assumes inv: "sys_inv env s" and en: "sys_enabled s ev"
  shows "forget_error (abs_session (ui (sys_step env ev s))) =
           forget_error (fold (spec_step (\<lambda>x. js_trim (validateExpressionDomain env x)) (store s))
                           (event_ops env (ui s) ev) (abs_session (ui s)))"
proof -
  define t where "t = ui s"
  from en have ue: "user_event ev" and et: "enabled t ev" by (simp_all add: sys_enabled_def t_def)
  have um: "\<not> unmounted t" by (rule enabled_mounted [OF et])
  from inv um have rt: "reach env t" and eq: "expressions t = store s"
    and we: "store_wf (props_storeId t) (expressions t)" by (simp_all add: sys_inv_def t_def)
  from we have sid: "\<forall>e \<in> set (expressions t). storeId e = props_storeId t" by (simp add: store_wf_def)
  have "forget_error (abs_session (handle_event env ev t)) =
          forget_error (fold (spec_step (\<lambda>x. js_trim (validateExpressionDomain env x)) (expressions t))
                          (event_ops env t ev) (abs_session t))"
  proof (cases ev)
    case (RowInput e i)
    with et have "e \<in> set (expressions t)" by simp
    with RowInput show ?thesis by (simp only: row_input_refines [OF rt um _ we])
  next
    case (ClickRemove e)
    with impl_op_forget_error [OF _ sid, of "RemoveRecord e" env] show ?thesis by simp
  next
    case (ClickToggle e)
    with impl_op_forget_error [OF _ sid, of "ToggleListType e" env] show ?thesis by simp
  next
    case TimerFires
    with impl_op_forget_error [OF _ sid, of Teardown env] show ?thesis by simp
  next
    case (NewProps es)
    with ue show ?thesis by simp
  next
    case (MoveFocus f)
    then show ?thesis by (simp add: abs_session_def)
  qed
  with eq show ?thesis by (simp add: abs_session_sys_step t_def)
qed

section \<open>Properties of the loop\<close>

text \<open>
  C3. Every run of user and timer events on the table connected to its store, from a
  reachable state, implements the specification's session operations: the session read
  after the run, its error text aside, is the one the specification computes by
  applying, in order, the operation of each event to the session read before the run,
  with the store's collection of that moment, commands and pending teardowns included.
\<close>

theorem closed_loop_refines_session:
  "sys_reach env s \<Longrightarrow> sys_enabled_run env evs s \<Longrightarrow>
     forget_error (abs_session (ui (sys_run env evs s))) =
       forget_error (spec_trace env evs s (abs_session (ui s)))"
proof (induction evs arbitrary: s)
  case Nil
  then show ?case by simp
next
  case (Cons ev evs)
  let ?V = "\<lambda>x. js_trim (validateExpressionDomain env x)"
  let ?s' = "sys_step env ev s"
  let ?a = "fold (spec_step ?V (store s)) (event_ops env (ui s) ev) (abs_session (ui s))"
  from Cons.prems have en: "sys_enabled s ev" and run: "sys_enabled_run env evs ?s'" by simp_all
  have "forget_error (abs_session (ui (sys_run env evs ?s'))) =
          forget_error (spec_trace env evs ?s' (forget_error (abs_session (ui ?s'))))"
    using Cons.IH [OF sys_next [OF Cons.prems(1) en] run] by (simp only: forget_error_spec_trace)
  also have "\<dots> = forget_error (spec_trace env evs ?s' (forget_error ?a))"
    by (simp only: sys_step_refines [OF sys_reach_inv [OF Cons.prems(1)] en])
  also have "\<dots> = forget_error (spec_trace env evs ?s' ?a)"
    by (simp only: forget_error_spec_trace)
  finally show ?case by simp
qed

text \<open>
  C4. In a reachable state of the table connected to its store, saving the row being
  edited with a buffer the validator accepts sends the buffer to the store: the
  store's record with that id gets the buffer as its text and keeps every other field,
  its storeId included, all other records are unchanged, and one teardown is
  scheduled.
\<close>

theorem closed_loop_save:
  assumes reach: "sys_reach env s" and um: "\<not> unmounted (ui s)"
    and e: "e \<in> set (store s)" and ce: "canEdit_row (ui s) e"
    and ok: "js_trim (validateExpressionDomain env (js_trim (expressionInput (state (ui s))))) = []"
  shows "store (sys_step env (RowInput e ClickSave) s) =
           map (\<lambda>x. if expression_id x = expression_id e
                    then e\<lparr>expression := expressionInput (state (ui s))\<rparr> else x) (store s)
         \<and> timers (ui (sys_step env (RowInput e ClickSave) s)) = Suc (timers (ui s))"
proof -
  define t where "t = ui s"
  define u where "u = e\<lparr>expression := expressionInput (state t)\<rparr>"
  from sys_reach_inv [OF reach] um have rt: "reach env t" and eq: "expressions t = store s"
    and wf: "store_wf (props_storeId t) (store s)" by (simp_all add: sys_inv_def t_def)
  from e eq have et: "e \<in> set (expressions t)" by simp
  from wf e have sid: "storeId e = props_storeId t" and tr: "js_truthy (expression_id e)"
    and dist: "distinct (map expression_id (expressions t))" by (simp_all add: store_wf_def eq)
  obtain f where rf: "row_field env t e = Inr f" and ed: "is_editable f"
    using reach_row_field_Inr [OF rt um [folded t_def] et] ce by (metis t_def)
  have ready: "session_ready t" using save_ready [OF rt um [folded t_def] et ce [folded t_def] tr] .
  from ce have sm: "editMode (state t)" and sidt: "state_id (state t) = expression_id e"
    by (simp_all add: canEdit_row_def t_def)
  have fd: "List.find (\<lambda>x. expression_id x = state_id (state t)) (expressions t) = Some e"
    using find_distinct [OF dist et] sidt by simp
  have u: "e\<lparr>expression := expressionInput (state t), storeId := props_storeId t\<rparr> = u"
    by (cases e) (simp add: u_def sid [symmetric])
  have ste: "dispatched (table_step env (RowInput e ClickSave) t) = dispatched t @ [UPDATE_EXPRESSION u]
             \<and> timers (table_step env (RowInput e ClickSave) t) = Suc (timers t)"
    using rf ed ready sm ok [folded t_def] fd u
    by (cases f) (simp_all add: table_step_def react_update_def commitEdit_def validateEdit_def
        session_ready_def dispatch_def Let_def)
  then have acts: "new_actions t (table_step env (RowInput e ClickSave) t) = [UPDATE_EXPRESSION u]"
    by (simp add: new_actions_def)
  show ?thesis
    using ste acts by (simp add: sys_step_def Let_def t_def [symmetric] u_def table_step_def react_update_def)
qed

lemma demo_system_reach: "sys_reach demo_env demo_system"
  unfolding demo_system_def demo_mounted_def
  by (rule sys_mount) (simp_all add: store_wf_def demo_expression_def)

lemma demo_sys_start:
  "sys_step demo_env (RowInput demo_expression ClickStart) demo_system =
     \<lparr>store = [demo_expression], ui = demo_editing ''example.com'' []\<rparr>"
proof -
  have t: "table_step demo_env (RowInput demo_expression ClickStart) (ui demo_system) =
             demo_editing ''example.com'' []"
    by (simp add: demo_system_def demo_start)
  have n: "new_actions (ui demo_system) (demo_editing ''example.com'' []) = []"
    by (simp add: new_actions_def demo_editing_def)
  show ?thesis by (simp add: sys_step_def Let_def t n, simp add: demo_system_def)
qed

lemma demo_sys_type:
  "sys_step demo_env (RowInput demo_expression (TypeValue ''example.org''))
     \<lparr>store = [demo_expression], ui = demo_editing ''example.com'' []\<rparr> =
   \<lparr>store = [demo_expression], ui = demo_editing ''example.org'' []\<rparr>"
  by (simp add: sys_step_def new_actions_def demo_editing_def onChange_def demo_expression_def Let_def
      table_simps)

lemma demo_sys_reach_typed:
  "sys_reach demo_env \<lparr>store = [demo_expression], ui = demo_editing ''example.org'' []\<rparr>"
proof -
  have "sys_enabled demo_system (RowInput demo_expression ClickStart)"
    by (simp add: sys_enabled_def demo_system_def demo_mounted_eq demo_idle_def demo_editing_def)
  from sys_next [OF demo_system_reach this] have r1:
    "sys_reach demo_env \<lparr>store = [demo_expression], ui = demo_editing ''example.com'' []\<rparr>"
    by (simp only: demo_sys_start)
  have "sys_enabled \<lparr>store = [demo_expression], ui = demo_editing ''example.com'' []\<rparr>
          (RowInput demo_expression (TypeValue ''example.org''))"
    by (simp add: sys_enabled_def demo_editing_def)
  from sys_next [OF r1 this] show ?thesis by (simp only: demo_sys_type)
qed

lemma demo_system_parts:
  "ui demo_system = demo_mounted OtherElement" "store demo_system = [demo_expression]"
  by (simp_all add: demo_system_def)

lemma demo_spec_trace:
  "commands (spec_trace demo_env [RowInput demo_expression ClickStart,
       RowInput demo_expression (TypeValue ''example.org''), RowInput demo_expression ClickSave]
       demo_system (abs_session (ui demo_system)))
     = [UPDATE_EXPRESSION (demo_expression\<lparr>expression := ''example.org''\<rparr>)]"
  apply (simp only: spec_trace.simps demo_sys_start demo_sys_type demo_system_parts)
  by (simp add: demo_mounted_eq demo_idle_def
      demo_editing_def abs_session_def row_field_def row_props_def demo_expression_def
      TextInputEditable_def TextInputTitle_def decodeURIComponent_def canEdit_row_def
      empty_state_def demo_env_def js_trim_id Let_def)

theorem closed_loop_refines_session_witness:
  "sys_reach demo_env demo_system
   \<and> sys_enabled_run demo_env [RowInput demo_expression ClickStart,
       RowInput demo_expression (TypeValue ''example.org''), RowInput demo_expression ClickSave] demo_system
   \<and> dispatched (ui (sys_run demo_env [RowInput demo_expression ClickStart,
       RowInput demo_expression (TypeValue ''example.org''), RowInput demo_expression ClickSave] demo_system))
     = [UPDATE_EXPRESSION (demo_expression\<lparr>expression := ''example.org''\<rparr>)]"
proof -
  let ?evs = "[RowInput demo_expression ClickStart,
       RowInput demo_expression (TypeValue ''example.org''), RowInput demo_expression ClickSave]"
  have en: "sys_enabled_run demo_env ?evs demo_system"
    by (simp only: sys_enabled_run.simps demo_sys_start demo_sys_type)
       (simp add: sys_enabled_def demo_system_parts demo_mounted_eq demo_idle_def demo_editing_def)
  from closed_loop_refines_session [OF demo_system_reach en]
  have "commands (forget_error (abs_session (ui (sys_run demo_env ?evs demo_system)))) =
          commands (forget_error (spec_trace demo_env ?evs demo_system (abs_session (ui demo_system))))"
    by (rule arg_cong)
  then show ?thesis using demo_system_reach en demo_spec_trace by simp
qed

theorem closed_loop_save_witness:
  "sys_reach demo_env \<lparr>store = [demo_expression], ui = demo_editing ''example.org'' []\<rparr>
   \<and> \<not> unmounted (demo_editing ''example.org'' [])
   \<and> canEdit_row (demo_editing ''example.org'' []) demo_expression
   \<and> js_trim (validateExpressionDomain demo_env (js_trim ''example.org'')) = []
   \<and> store (sys_step demo_env (RowInput demo_expression ClickSave)
        \<lparr>store = [demo_expression], ui = demo_editing ''example.org'' []\<rparr>)
       = [demo_expression\<lparr>expression := ''example.org''\<rparr>]"
proof -
  let ?s = "\<lparr>store = [demo_expression], ui = demo_editing ''example.org'' []\<rparr>"
  have um: "\<not> unmounted (ui ?s)" and e: "demo_expression \<in> set (store ?s)"
    and ce: "canEdit_row (ui ?s) demo_expression"
    and ok: "js_trim (validateExpressionDomain demo_env (js_trim (expressionInput (state (ui ?s))))) = []"
    by (simp_all add: demo_editing_def canEdit_row_def demo_expression_def demo_env_def js_trim_id)
  from closed_loop_save [OF demo_sys_reach_typed um e ce ok] demo_sys_reach_typed um ce ok
  show ?thesis by (simp add: demo_editing_def)
qed

end
