(* ===== verification/Spec2Isabelle.thy ===== *)
theory Spec2Isabelle
  imports Closed_Loop
begin

text \<open>
  \<^bold>\<open>The expression table editor of Cookie-AutoDelete.\<close>

  \<^medskip>
  \<^bold>\<open>The program.\<close> Two React components under src/ui/common_components. The class
  component \<open>ExpressionTable\<close> (ExpressionTable.tsx) lists the expressions of a store
  (a domain expression, its list type, its options), and it owns the one edit session:
  its state \<open>EmptyState\<close> holds \<open>editMode\<close>, the id of the row being edited, the
  edit buffer and the invalid-feedback text. It sends \<open>updateExpressionUI\<close> and
  \<open>removeExpressionUI\<close> actions to the redux store, and after a save it schedules
  \<open>sleep(200).then(clearEdit)\<close>. Each row renders the function component
  \<open>TextInputEditable\<close> (TextInputEditable.tsx), which shows the percent-decoded text
  read-only, or an input when the row is the one being edited. The field forwards the
  user's gestures to four callbacks of the table: \<open>onChange\<close>, \<open>onEditStart\<close>,
  \<open>onEditSave\<close> and \<open>onEditClear\<close>.

  \<^medskip>
  \<^bold>\<open>The theories.\<close>
  \<^item> \<open>Prelude\<close>: truthiness and \<open>||\<close> on optional strings, the sequencing of
    fallible results, the rule collection \<open>table_simps\<close>, and shared list and sum lemmas.
  \<^item> \<open>Utf8\<close>: the byte view of strings. \<open>utf8_encode\<close> encodes a code point, and
    \<open>utf8_string\<close> encodes a text. The lemmas prove that the encoding is
    self-synchronising.
  \<^item> \<open>Js_String\<close>: the string methods the code calls, from ECMA-262.
    \<^item> \<open>trim\<close>: the loops \<open>js_trim_start\<close>/\<open>js_trim_end\<close> over the UTF-8
      encodings of all WhiteSpace and LineTerminator code points.
    \<^item> \<open>includes\<close>: the StringIndexOf loop \<open>string_index_of\<close>.
    \<^item> \<open>toLowerCase\<close>: ASCII only.
  \<^item> \<open>Uri\<close>: \<open>decodeURIComponent\<close> (ECMA-262 Decode), as \<open>decode_from\<close>, a
    structural recursion with the automaton state of the algorithm; \<open>URIError\<close> is
    an \<open>Inl\<close> value. Here also: \<open>pct_encode\<close>, the percent-encoding of UTF-8 text,
    used as a reference.
  \<^item> \<open>Expressions\<close>: the \<open>Expression\<close> record as a record scheme (its other options
    are the \<open>more\<close> part), the two store actions, and the store's reducer
    \<open>apply_action\<close> (outside src/, modelled from the specification).
  \<^item> \<open>TextInputEditable\<close>: the props record, the element the component renders
    (\<open>TextInputEditable\<close>, \<open>TextInputTitle\<close>), the \<open>onKeyUp\<close> handler with
    \<open>js_stmt\<close> (an expression statement that only reads a callback versus a call), and
    \<open>field_dispatch\<close>: which callbacks a user input invokes.
  \<^item> \<open>ExpressionTable\<close>: the component instance as the record \<open>table\<close>, one
    definition per method (\<open>startEditing\<close>, \<open>clearEdit\<close>, \<open>setInvalid\<close>,
    \<open>validateEdit\<close>, \<open>commitEdit\<close>, \<open>onChange\<close>, \<open>onRemoveExpression\<close>,
    \<open>onToggleListType\<close>), and \<open>render\<close> with the props of each row
    (\<open>row_props\<close>, \<open>canEdit_row\<close>).
  \<^item> \<open>Table_Runtime\<close>: what React does around the methods, from React's documented
    semantics (outside src/). A \<open>setState\<close> marks an update as pending. The commit
    (\<open>commit_update\<close>) renders, keeps or remounts the edit input by row key, applies
    \<open>autoFocus\<close> and the ref callback, and runs \<open>componentDidUpdate\<close>; a render that
    throws unmounts the tree. Also here: the events that reach the component
    (\<open>table_event\<close>, \<open>handle_event\<close>, \<open>enabled\<close>), the step \<open>table_step\<close>, and
    the reachable states \<open>reach\<close>, an inductive relation from \<open>mount\<close>.
  \<^item> \<open>Session_Spec\<close>: the specification's edit-session contract (\<open>spec_step\<close>),
    the abstraction \<open>abs_session\<close> of a table, and the handler implementing each
    operation (\<open>impl_op\<close>). The operations are the five of the session plus
    \<open>removeRecord\<close>, the list-type toggle and the firing of a scheduled teardown.
  \<^item> \<open>Closed_Loop\<close>: the table connected to its store
    (\<open>connect(null, mapDispatchToProps)\<close>).
    \<^item> \<open>sys_step\<close> runs an event on the table, applies the commands it dispatched
      with the store's reducer, and passes the new collection back as props.
    \<^item> \<open>sys_reach\<close> holds the reachable states from a well-formed store.
    \<^item> \<open>event_ops\<close> gives the specification's operations of each event, and
      \<open>spec_trace\<close> runs them alongside a run of the loop.
  \<^item> This theory: runs that span the table, the store and the runtime. A pending
    teardown meets a session opened after the save, and the record being edited is
    removed.

  \<^medskip>
  \<^bold>\<open>Effects and bounds.\<close>
  \<^item> The 200 ms delay is not a clock. \<open>timers\<close> counts the pending callbacks, and
    \<open>TimerFires\<close> may interleave with any other event while one is pending. This
    covers every timing of the callbacks relative to user input.
  \<^item> No loop needs fuel:
    \<^item> \<open>decode_from\<close> recurses on the string, and \<open>render\<close> maps over the rows.
    \<^item> The loops of \<open>trim\<close> and of StringIndexOf are \<^theory_text>\<open>function\<close>s. Their
      termination proofs use a measure: the length of the text, and the number of
      positions left.
  \<^item> Strings are \<^typ>\<open>string\<close>, read as their UTF-8 bytes, so \<open>decodeURIComponent\<close>
    returns decoded octets as characters. The byte-level \<open>trim\<close> is proved to be
    trim on code points. \<open>toLowerCase\<close> maps ASCII letters only; its one use has no
    effect either way.
  \<^item> \<open>validateExpressionDomain\<close> (services/Libs, outside src/) and
    \<open>shortid.generate\<close> are parameters (the record \<open>env\<close>); every theorem over a
    general \<open>env\<close> holds for any validator.

  \<^medskip>
  \<^bold>\<open>What the lemmas show.\<close>
  \<^item> Invariant (\<open>Table_Runtime.reach_invariant\<close>): in every reachable state, no
    update is pending, and the ref holds exactly the input of the last edited row.
    Focus is on that input only while it is mounted, the state is the empty one
    outside a session, and a mounted table renders.
  \<^item> Handlers (\<open>ExpressionTable\<close>):
    \<^item> Every branch of \<open>commitEdit\<close>: guard, invalid, valid, record missing.
    \<^item> \<open>validateEdit\<close> validates the buffer trimmed as code points, with the full
      WhiteSpace and LineTerminator set. The lemma \<open>Js_String.js_trim_utf8\<close>
      carries this.
    \<^item> Cancelling leaves the table idle, and switching targets is last-writer-wins.
    \<^item> Rendering: one row per record in order, editable exactly for the edited id,
      at most one editable row, and the empty-table fallback.
    \<^item> A row not being edited displays its stored percent-encoded text decoded. The
      lemma \<open>Uri.decodeURIComponent_pct_encode\<close> carries this.
  \<^item> Refinement (\<open>Session_Spec.table_refines_session\<close>): each handler implements
    its operation of the contract. The conditions are named in the theorem, and the
    code's one departure is isolated: a successful validation leaves an earlier error.
  \<^item> The connected table (\<open>Closed_Loop\<close>):
    \<^item> Trace refinement: every run of user and timer events implements the
      specification's operations in order, error text aside. The conditions of the
      one-step refinement are discharged by the loop's invariant.
    \<^item> Save: a valid save puts the buffer into the store as the edited record's
      text, every other field kept. The storeId the code writes is the record's own,
      by the loop's invariant \<open>sys_inv\<close>.
  \<^item> Field behaviour (\<open>TextInputEditable\<close>):
    \<^item> The edit input displays the decoding of the buffer, which is the buffer
      itself when it has no \<open>%\<close>.
    \<^item> The field shows the feedback text.
    \<^item> The Enter and Escape keys invoke nothing.
  \<^item> Runtime consequences (\<open>Table_Runtime\<close>):
    \<^item> Typing a trailing \<open>%\<close> unmounts the table.
    \<^item> Starting an edit takes the focus from another form field.
    \<^item> While a session is open, every re-render takes the focus back to the edit
      input from anything but the formText field.
    \<^item> A teardown ends whatever session is active.
  \<^item> Across the components (this theory):
    \<^item> A pending teardown closes a session opened after the save, dropping its
      buffer.
    \<^item> Removing the record being edited leaves its session open, with no row on
      which to save or cancel it.
  \<^item> The concrete runs of the witnesses are evaluated by \<open>simp\<close> with the rule
    collection \<open>table_simps\<close>. Each theory declares into it the definitions a step reads.

  \<^medskip>
  \<^bold>\<open>Not modelled.\<close>
  \<^item> The markup of the rendered tree beyond the row keys, the field and the texts'
    i18n keys.
  \<^item> The presentational components (\<open>ExpressionOptions\<close>, \<open>IconButton\<close>,
    \<open>SettingsTooltip\<close>).
  \<^item> The caret placement of \<open>moveCaretToEnd\<close> (src/ui/UILibs, outside the
    sources). Focus is modelled, caret positions are not.
  \<^item> The DOM focus of the global form field beyond whether it holds the focus, and
    the actual translation strings.
  \<^item> React's concurrent rendering and StrictMode double rendering. The code relies
    on neither.
  \<^item> The Unicode case mapping of \<open>toLowerCase\<close> beyond ASCII. Its one use
    (\<open>onKeyUp\<close>) compares with ASCII words, and both branches invoke nothing.
  \<^item> The store's persistence and its keying by \<open>storeId\<close>. The loop feeds the
    table one collection, and the dispatch and the new props happen in one step.
\<close>

section \<open>Sample data\<close>

text \<open>
  A second stored record, and the two-row table right after the first row was saved
  (its teardown pending, its session still open).
\<close>

definition demo_expression2 :: expression where
  "demo_expression2 =
     \<lparr>expression_id = Some ''2'', expression = ''example.net'', listType = WHITE, storeId = ''default''\<rparr>"

definition demo2_saved :: "unit table" where
  "demo2_saved = (demo_editing ''example.com'' [])\<lparr>expressions := [demo_expression, demo_expression2],
      timers := 1, dispatched := [UPDATE_EXPRESSION demo_expression]\<rparr>"

section \<open>The steps of the sample runs\<close>

lemma demo2_start_first:
  "table_step demo_env (RowInput demo_expression ClickStart)
     (mount demo_env [demo_expression, demo_expression2] ''default'' ''Expression'' OtherElement) =
   (demo_editing ''example.com'' [])\<lparr>expressions := [demo_expression, demo_expression2]\<rparr>"
  by (simp add: demo_editing_def mount_def demo_expression2_def empty_state_def startEditing_def
      list_word_def toggle_title_def TextInputTitle_def demo_expression_def Let_def table_simps)

lemma demo2_save_first:
  "table_step demo_env (RowInput demo_expression ClickSave)
     ((demo_editing ''example.com'' [])\<lparr>expressions := [demo_expression, demo_expression2]\<rparr>) = demo2_saved"
  by (simp add: demo_editing_def demo2_saved_def demo_expression2_def commitEdit_def validateEdit_def
      demo_env_def js_trim_id dispatch_def demo_expression_def Let_def table_simps)

lemma demo2_start_second:
  "table_step demo_env (RowInput demo_expression2 ClickStart) demo2_saved =
   demo2_saved\<lparr>state := \<lparr>expressionInput = ''example.net'', editMode = True, state_id = Some ''2'', invalid = []\<rparr>,
      inputNode := Some (fresh_input (''example.net'', WHITE))\<rparr>"
  by (simp add: demo_editing_def demo2_saved_def demo_expression2_def startEditing_def demo_expression_def Let_def table_simps)

lemma demo2_reach_saved: "reach demo_env demo2_saved"
proof -
  let ?m = "mount demo_env [demo_expression, demo_expression2] ''default'' ''Expression'' OtherElement"
  have r0: "reach demo_env ?m" by (rule reach_mount) simp
  have u: "\<not> unmounted ?m"
    by (simp add: mount_def demo_expression2_def empty_state_def demo_expression_def Let_def table_simps)
  have "reach demo_env (table_step demo_env (RowInput demo_expression ClickStart) ?m)"
    by (rule reach_step [OF r0]) (simp add: u, simp add: mount_def)
  then have r1: "reach demo_env ((demo_editing ''example.com'' [])\<lparr>expressions := [demo_expression, demo_expression2]\<rparr>)"
    by (simp only: demo2_start_first)
  have "reach demo_env (table_step demo_env (RowInput demo_expression ClickSave)
      ((demo_editing ''example.com'' [])\<lparr>expressions := [demo_expression, demo_expression2]\<rparr>))"
    by (rule reach_step [OF r1]) (simp add: demo_editing_def)
  then show ?thesis by (simp only: demo2_save_first)
qed

text \<open>
  The remove button followed by the store's new props: one remove command, then a
  commit of the new collection.
\<close>

lemma remove_then_props_step:
  assumes "reach env t"
  shows "table_step env (NewProps (apply_action (REMOVE_EXPRESSION e) (expressions t))) (table_step env (ClickRemove e) t)
       = commit_update env (t\<lparr>dispatched := dispatched t @ [REMOVE_EXPRESSION e],
                               expressions := apply_action (REMOVE_EXPRESSION e) (expressions t), dirty := True\<rparr>)"
proof -
  have "\<not> dirty t" using reach_inv [OF assms] by (simp add: table_inv_def)
  then show ?thesis
    by (simp add: table_step_def react_update_def onRemoveExpression_def dispatch_def)
qed

section \<open>Properties across the components\<close>

text \<open>
  C10. A teardown scheduled by an earlier save ends a session the user opens before it
  fires: from a reachable table with a pending teardown, clicking the edit button of a
  row that is not being edited opens a session on it (buffer seeded with its text, no
  error) while the teardown stays pending; when it fires, the table is back in the
  empty state and the new buffer is dropped without any command.
\<close>

theorem teardown_discards_new_session:
  assumes "reach env t" and "\<not> unmounted t" and "0 < timers t"
    and "e \<in> set (expressions t)" and "\<not> canEdit_row t e"
    and "\<not> unmounted (table_step env (RowInput e ClickStart) t)"
  shows "state (table_step env (RowInput e ClickStart) t) =
           \<lparr>expressionInput = expression e, editMode = True, state_id = expression_id e, invalid = []\<rparr>
         \<and> enabled (table_step env (RowInput e ClickStart) t) TimerFires
         \<and> state (table_step env TimerFires (table_step env (RowInput e ClickStart) t)) = empty_state
         \<and> dispatched (table_step env TimerFires (table_step env (RowInput e ClickStart) t)) = dispatched t"
  using assms(3,6) start_step [OF assms(1,2,4,5)]
  by (simp add: timer_step_state timer_step_dispatched startEditing_def setState_def)

theorem teardown_discards_new_session_witness:
  "reach demo_env demo2_saved \<and> \<not> unmounted demo2_saved \<and> 0 < timers demo2_saved
   \<and> demo_expression2 \<in> set (expressions demo2_saved) \<and> \<not> canEdit_row demo2_saved demo_expression2
   \<and> \<not> unmounted (table_step demo_env (RowInput demo_expression2 ClickStart) demo2_saved)
   \<and> editMode (state (table_step demo_env (RowInput demo_expression2 ClickStart) demo2_saved))
   \<and> state (table_step demo_env TimerFires (table_step demo_env (RowInput demo_expression2 ClickStart) demo2_saved))
       = empty_state"
proof -
  have h: "\<not> unmounted demo2_saved" "0 < timers demo2_saved"
    "demo_expression2 \<in> set (expressions demo2_saved)" "\<not> canEdit_row demo2_saved demo_expression2"
    "\<not> unmounted (table_step demo_env (RowInput demo_expression2 ClickStart) demo2_saved)"
    by (simp_all only: demo2_start_second)
      (simp_all add: demo2_saved_def demo_editing_def canEdit_row_def demo_expression2_def)
  show ?thesis using demo2_reach_saved h teardown_discards_new_session [OF demo2_reach_saved h] by simp
qed

text \<open>
  C11. Removing the record being edited does not end the session: after the remove
  command and the store's new collection, the state is unchanged and still in edit
  mode, no row is editable any more, and commitEdit on the resulting table does
  nothing, so its missing-record branch cannot close the session.
\<close>

theorem removed_target_session_stays_open:
  assumes "reach env t" and "canEdit_row t e"
    and "\<not> unmounted (table_step env (NewProps (apply_action (REMOVE_EXPRESSION e) (expressions t)))
                        (table_step env (ClickRemove e) t))"
  shows "state (table_step env (NewProps (apply_action (REMOVE_EXPRESSION e) (expressions t)))
                  (table_step env (ClickRemove e) t)) = state t
         \<and> editMode (state t)
         \<and> editing_rows (table_step env (NewProps (apply_action (REMOVE_EXPRESSION e) (expressions t)))
                          (table_step env (ClickRemove e) t)) = []
         \<and> commitEdit env (table_step env (NewProps (apply_action (REMOVE_EXPRESSION e) (expressions t)))
                          (table_step env (ClickRemove e) t))
           = table_step env (NewProps (apply_action (REMOVE_EXPRESSION e) (expressions t)))
               (table_step env (ClickRemove e) t)"
proof -
  let ?t1 = "t\<lparr>dispatched := dispatched t @ [REMOVE_EXPRESSION e],
                expressions := apply_action (REMOVE_EXPRESSION e) (expressions t), dirty := True\<rparr>"
  note step = remove_then_props_step [OF assms(1), of e]
  have rows: "editing_rows ?t1 = []"
    using assms(2) by (auto simp: editing_rows_def canEdit_row_def filter_empty_conv)
  from assms(3) have "\<not> unmounted (commit_update env ?t1)" by (simp only: step not_False_eq_True)
  then have ok: "\<not> isl (render env ?t1)" by (simp add: commit_update_unmounted)
  have ni: "\<not> editInput (commit_update env ?t1)"
    using rows ok by (simp add: commit_update_def componentDidUpdate_def mounted_key_def Let_def)
  have rows2: "editing_rows (commit_update env ?t1) = []"
    using rows by (simp add: editing_rows_def canEdit_row_def)
  show ?thesis
    unfolding step using assms(2) ni rows2
    by (simp add: canEdit_row_def commitEdit_def validateEdit_def)
qed

theorem removed_target_session_stays_open_witness:
  "reach demo_env (demo_editing ''example.com'' []) \<and> canEdit_row (demo_editing ''example.com'' []) demo_expression
   \<and> \<not> unmounted (table_step demo_env (NewProps (apply_action (REMOVE_EXPRESSION demo_expression)
          (expressions (demo_editing ''example.com'' [])))) (table_step demo_env (ClickRemove demo_expression) (demo_editing ''example.com'' [])))
   \<and> editMode (state (table_step demo_env (NewProps (apply_action (REMOVE_EXPRESSION demo_expression)
          (expressions (demo_editing ''example.com'' [])))) (table_step demo_env (ClickRemove demo_expression) (demo_editing ''example.com'' []))))"
proof -
  have c: "canEdit_row (demo_editing ''example.com'' []) demo_expression"
    by (simp add: canEdit_row_def demo_editing_def demo_expression_def)
  have u: "\<not> unmounted (table_step demo_env (NewProps (apply_action (REMOVE_EXPRESSION demo_expression)
          (expressions (demo_editing ''example.com'' [])))) (table_step demo_env (ClickRemove demo_expression) (demo_editing ''example.com'' [])))"
    unfolding remove_then_props_step [OF demo_reach_started]
    by (simp add: commit_update_unmounted demo_editing_def render_def)
  have m: "editMode (state (demo_editing ''example.com'' []))" by (simp add: demo_editing_def)
  show ?thesis using demo_reach_started c u m removed_target_session_stays_open [OF demo_reach_started c u] by simp
qed

end
